theory Spec2Isabelle
  imports Main "HOL-Library.AList"
begin

section \<open>The percolator of invenio-oaiserver\<close>

text \<open>
  A shallow embedding of \<^verbatim>\<open>invenio_oaiserver/percolator.py\<close>. The module talks to a
  search engine through \<^verbatim>\<open>current_search_client\<close>, reads the table of sets through
  \<^verbatim>\<open>OAISet.query\<close> and keeps one cache, \<^verbatim>\<open>current_oaiserver.sets\<close>. The engine is
  an explicit value passed through every function, the table is a list given as an
  argument, what the cache holds is an optional list passed in and returned. Every exception is a
  value of \<open>error\<close>; a function that may raise returns \<open>error + 'a\<close>.

  Source names that start with an underscore are written without it; the one clash,
  \<^verbatim>\<open>_percolate_query\<close>, is \<open>percolate_query_single\<close> here.
\<close>

subsection \<open>Errors\<close>

datatype error = KeyError | TypeError | IOError | NotFoundError | RequestError

subsection \<open>The search engine\<close>

text \<open>
  What \<^verbatim>\<open>current_search_client\<close> talks to. An index has a mapping (field name to field
  type) and the stored queries it holds, by id, in the order they were first written.
  The records stored in a content index are not part of this value: the module never
  writes them, and reads them only through a percolate clause that names a stored
  record (\<open>get_document\<close> below). Document types are passed to the calls as the source
  passes them, and the engine value does not distinguish them.
\<close>

record 'q es_index =
  properties :: "(string \<times> string) list"
  documents :: "(string \<times> 'q) list"

type_synonym 'q engine = "(string \<times> 'q es_index) list"

subsection \<open>The request bodies\<close>

text \<open>
  The bodies the module sends to \<^verbatim>\<open>search\<close>:
  \<^verbatim>\<open>{}\<close>, \<^verbatim>\<open>{'query': clause}\<close> and \<^verbatim>\<open>{'query': {'bool': {'must': clauses}}}\<close>.
\<close>

datatype 'd clause =
    Percolate_document "string option" 'd
  | Percolate_documents "'d list"
  | Percolate_stored string string string
  | Ids "string list"

datatype 'd body = Empty_body | Query "'d clause" | Query_bool_must "'d clause list"

subsection \<open>The application around the module\<close>

text \<open>
  Everything the module imports and does not define: the engine's major version
  (\<^verbatim>\<open>ES_VERSION[0]\<close>), \<^verbatim>\<open>build_index_name\<close> (index and suffix),
  \<^verbatim>\<open>current_search.mappings\<close> (index to mapping path), reading the JSON file at a mapping
  path down to \<^verbatim>\<open>["mappings"]["properties"]\<close>, the document type \<^verbatim>\<open>schema_to_index\<close>
  gives for a path, \<^verbatim>\<open>query_string_parser(...).to_dict()\<close>, whether the engine accepts a
  query for storing, whether a stored query matches a document, the stored record an
  index holds under an id, for a record its bound sets, its index and document type,
  and its dump, and whether the application's state object \<^verbatim>\<open>current_oaiserver\<close> was
  given a cache object.
\<close>

record ('q, 'd) app =
  ES_VERSION :: nat
  build_index_name :: "string \<Rightarrow> string \<Rightarrow> string"
  mappings :: "(string \<times> string) list"
  load_mapping :: "string \<Rightarrow> error + (string \<times> string) list"
  schema_to_index :: "string \<Rightarrow> string"
  query_string_parser :: "string option \<Rightarrow> 'q"
  valid_query :: "'q \<Rightarrow> bool"
  percolates :: "'q \<Rightarrow> 'd \<Rightarrow> bool"
  get_document :: "string \<Rightarrow> string \<Rightarrow> 'd option"
  record_sets_fetcher :: "'d \<Rightarrow> string list"
  record_to_index :: "'d \<Rightarrow> string \<times> string"
  dumps :: "'d \<Rightarrow> 'd"
  oaiserver_cache :: bool

text \<open>A row of the table \<^verbatim>\<open>OAISet\<close>: the set's name and its optional search pattern.\<close>

record oaiset =
  spec :: string
  search_pattern :: "string option"

subsection \<open>Engine calls\<close>

definition es_exists :: "string \<Rightarrow> 'q engine \<Rightarrow> bool" where
  "es_exists name es = (map_of es name \<noteq> None)"

text \<open>\<^verbatim>\<open>indices.create\<close>: refused (400) when the index exists.\<close>

definition es_create ::
  "string \<Rightarrow> (string \<times> string) list \<Rightarrow> 'q engine \<Rightarrow> error + 'q engine" where
  "es_create name props es =
     (if es_exists name es then Inl RequestError
      else Inr (AList.update name \<lparr>properties = props, documents = []\<rparr> es))"

text \<open>A dictionary's \<^verbatim>\<open>update\<close>: the new entries replace or extend the old ones.\<close>

definition dict_update ::
  "(string \<times> string) list \<Rightarrow> (string \<times> string) list \<Rightarrow> (string \<times> string) list" where
  "dict_update new old = fold (\<lambda>(k, v). AList.update k v) new old"

text \<open>\<^verbatim>\<open>indices.put_mapping\<close>: not found (404) when the index is missing.\<close>

definition es_put_mapping ::
  "string \<Rightarrow> (string \<times> string) list \<Rightarrow> 'q engine \<Rightarrow> error + 'q engine" where
  "es_put_mapping name props es =
     (case map_of es name of
        None \<Rightarrow> Inl NotFoundError
      | Some ix \<Rightarrow>
          Inr (AList.update name (ix\<lparr>properties := dict_update props (properties ix)\<rparr>) es))"

text \<open>
  \<^verbatim>\<open>index\<close>: create or replace the document under the id; the engine creates a missing
  index on the way, and refuses (400) a query it cannot parse. The second argument is
  the \<^verbatim>\<open>doc_type\<close> the caller passes, \<open>None\<close> when it passes none: the clients before
  version 7 require it, and the call without it raises \<^verbatim>\<open>TypeError\<close> before anything
  is sent.
\<close>

definition es_index_doc ::
  "('q, 'd) app \<Rightarrow> string \<Rightarrow> string option option \<Rightarrow> string \<Rightarrow> 'q \<Rightarrow> 'q engine
     \<Rightarrow> error + 'q engine" where
  "es_index_doc A name doc_type ident q es =
     (if doc_type = None \<and> ES_VERSION A < 7 then Inl TypeError
      else if \<not> valid_query A q then Inl RequestError
      else case map_of es name of
        None \<Rightarrow> Inr (AList.update name \<lparr>properties = [], documents = [(ident, q)]\<rparr> es)
      | Some ix \<Rightarrow>
          Inr (AList.update name (ix\<lparr>documents := AList.update ident q (documents ix)\<rparr>) es))"

text \<open>
  \<^verbatim>\<open>delete\<close>: not found (404) when the index or the document is missing, unless the
  caller lists 404 in \<^verbatim>\<open>ignore\<close>.
\<close>

definition es_delete ::
  "string \<Rightarrow> string \<Rightarrow> nat list \<Rightarrow> 'q engine \<Rightarrow> error + 'q engine" where
  "es_delete name ident ignore es =
     (case map_of es name of
        None \<Rightarrow> (if 404 \<in> set ignore then Inr es else Inl NotFoundError)
      | Some ix \<Rightarrow>
          (case map_of (documents ix) ident of
             None \<Rightarrow> (if 404 \<in> set ignore then Inr es else Inl NotFoundError)
           | Some q \<Rightarrow>
               Inr (AList.update name
                      (ix\<lparr>documents := AList.delete ident (documents ix)\<rparr>) es)))"

text \<open>Whether a stored query, under its id, satisfies one clause of a request.\<close>

fun clause_matches :: "('q, 'd) app \<Rightarrow> 'd clause \<Rightarrow> string \<times> 'q \<Rightarrow> bool" where
  "clause_matches A (Percolate_document dt d) (ident, q) = percolates A q d"
| "clause_matches A (Percolate_documents ds) (ident, q) = list_ex (percolates A q) ds"
| "clause_matches A (Percolate_stored ix i nm) (ident, q) =
     (case get_document A ix i of None \<Rightarrow> False | Some d \<Rightarrow> percolates A q d)"
| "clause_matches A (Ids vs) (ident, q) = (ident \<in> set vs)"

text \<open>A clause that names a stored record the engine does not hold cannot be run.\<close>

fun clause_resolves :: "('q, 'd) app \<Rightarrow> 'd clause \<Rightarrow> bool" where
  "clause_resolves A (Percolate_stored ix i nm) = (get_document A ix i \<noteq> None)"
| "clause_resolves A c = True"

fun body_clauses :: "'d body \<Rightarrow> 'd clause list" where
  "body_clauses Empty_body = []"
| "body_clauses (Query c) = [c]"
| "body_clauses (Query_bool_must cs) = cs"

text \<open>All the stored queries of an index that satisfy a body, in the index's order.\<close>

definition matching :: "('q, 'd) app \<Rightarrow> 'd body \<Rightarrow> 'q es_index \<Rightarrow> string list" where
  "matching A b ix =
     map fst (filter (\<lambda>doc. list_all (\<lambda>c. clause_matches A c doc) (body_clauses b))
                (documents ix))"

text \<open>
  \<^verbatim>\<open>search\<close>: one page of hits, of the size asked for (ten when the caller gives none);
  a hit is written as its \<^verbatim>\<open>_id\<close>. A missing index is not found (404) unless the call is
  made with \<^verbatim>\<open>allow_no_indices\<close> and \<^verbatim>\<open>ignore_unavailable\<close>. The empty body matches
  every document.
\<close>

definition es_search ::
  "('q, 'd) app \<Rightarrow> string \<Rightarrow> 'd body \<Rightarrow> nat option \<Rightarrow> bool \<Rightarrow> 'q engine
     \<Rightarrow> error + string list" where
  "es_search A name b size_opt lenient es =
     (if \<not> list_all (clause_resolves A) (body_clauses b) then Inl NotFoundError
      else case map_of es name of
        None \<Rightarrow> (if lenient then Inr [] else Inl NotFoundError)
      | Some ix \<Rightarrow>
          Inr (take (case size_opt of None \<Rightarrow> 10 | Some n \<Rightarrow> n) (matching A b ix)))"

text \<open>The \<^verbatim>\<open>percolate\<close> call of the old engines: every match, no page size.\<close>

definition es_percolate ::
  "('q, 'd) app \<Rightarrow> string \<Rightarrow> string option \<Rightarrow> 'd \<Rightarrow> bool \<Rightarrow> 'q engine
     \<Rightarrow> error + string list" where
  "es_percolate A name dt d lenient es =
     (case map_of es name of
        None \<Rightarrow> (if lenient then Inr [] else Inl NotFoundError)
      | Some ix \<Rightarrow> Inr (matching A (Query (Percolate_document dt d)) ix))"

subsection \<open>The module\<close>

definition build_percolator_index_name :: "('q, 'd) app \<Rightarrow> string \<Rightarrow> string" where
  "build_percolator_index_name A index =
     build_index_name A index (if ES_VERSION A < 7 then [] else ''-percolators'')"

definition PERCOLATOR_MAPPING :: "(string \<times> string) list" where
  "PERCOLATOR_MAPPING = [(''query'', ''percolator'')]"

text \<open>Python's \<^verbatim>\<open>if not mapping_path\<close>: no path, or the empty one.\<close>

definition create_percolator_mapping ::
  "('q, 'd) app \<Rightarrow> string \<Rightarrow> string option \<Rightarrow> string option \<Rightarrow> 'q engine
     \<Rightarrow> error + 'q engine" where
  "create_percolator_mapping A index doc_type mapping_path es =
     (let percolator_index = build_percolator_index_name A index in
      if ES_VERSION A = 5 \<or> ES_VERSION A = 6 then
        es_put_mapping index PERCOLATOR_MAPPING es
      else if ES_VERSION A = 7 then
        (case (if mapping_path = None \<or> mapping_path = Some []
               then (case map_of (mappings A) index of
                       None \<Rightarrow> Inl KeyError | Some p \<Rightarrow> Inr p)
               else Inr (the mapping_path)) of
           Inl e \<Rightarrow> Inl e
         | Inr path \<Rightarrow>
             if \<not> es_exists percolator_index es then
               (case load_mapping A path of
                  Inl e \<Rightarrow> Inl e
                | Inr mapping \<Rightarrow>
                    es_create percolator_index (dict_update PERCOLATOR_MAPPING mapping) es)
             else Inr es)
      else Inr es)"

text \<open>
  With an engine version the function does not know it falls off its end and the
  result is \<^verbatim>\<open>None\<close>; the next loop over it raises \<^verbatim>\<open>TypeError\<close>.
\<close>

definition percolate_query_single ::
  "('q, 'd) app \<Rightarrow> string \<Rightarrow> string \<Rightarrow> string option \<Rightarrow> 'd \<Rightarrow> 'q engine
     \<Rightarrow> error + string list" where
  "percolate_query_single A index doc_type percolator_doc_type document es =
     (let index' = build_percolator_index_name A index in
      if ES_VERSION A = 2 \<or> ES_VERSION A = 5 then
        es_percolate A index' (Some doc_type) document True es
      else if ES_VERSION A = 6 \<or> ES_VERSION A = 7 then
        es_search A index' (Query (Percolate_document percolator_doc_type document))
          None True es
      else Inl TypeError)"

definition get_percolator_doc_type ::
  "('q, 'd) app \<Rightarrow> string \<Rightarrow> error + string option" where
  "get_percolator_doc_type A index =
     (if ES_VERSION A = 2 then Inr (Some ''.percolator'')
      else if ES_VERSION A = 5 then Inr (Some ''percolators'')
      else if ES_VERSION A = 6 \<or> ES_VERSION A = 7 then
        (case map_of (mappings A) index of
           None \<Rightarrow> Inl KeyError
         | Some mapping_path \<Rightarrow> Inr (Some (schema_to_index A mapping_path)))
      else Inr None)"

text \<open>\<^verbatim>\<open>'oaiset-{}'.format(spec)\<close>\<close>

definition oaiset_id :: "string \<Rightarrow> string" where
  "oaiset_id s = ''oaiset-'' @ s"

text \<open>The loop of \<^verbatim>\<open>_new_percolator\<close> over \<^verbatim>\<open>current_search.mappings.items()\<close>.\<close>

fun new_percolator_loop ::
  "('q, 'd) app \<Rightarrow> string \<Rightarrow> 'q \<Rightarrow> (string \<times> string) list \<Rightarrow> 'q engine
     \<Rightarrow> error + 'q engine" where
  "new_percolator_loop A s query [] es = Inr es"
| "new_percolator_loop A s query ((index, mapping_path) # rest) es =
     (case get_percolator_doc_type A index of
        Inl e \<Rightarrow> Inl e
      | Inr percolator_doc_type \<Rightarrow>
          (case create_percolator_mapping A index percolator_doc_type
                  (Some mapping_path) es of
             Inl e \<Rightarrow> Inl e
           | Inr es1 \<Rightarrow>
               (case es_index_doc A (build_percolator_index_name A index)
                       (Some percolator_doc_type) (oaiset_id s) query es1 of
                  Inl e \<Rightarrow> Inl e
                | Inr es2 \<Rightarrow> new_percolator_loop A s query rest es2)))"

text \<open>Python's \<^verbatim>\<open>if spec and search_pattern\<close>: both present and non-empty.\<close>

definition new_percolator ::
  "('q, 'd) app \<Rightarrow> string \<Rightarrow> string option \<Rightarrow> 'q engine \<Rightarrow> error + 'q engine" where
  "new_percolator A s pattern es =
     (if s \<noteq> [] \<and> pattern \<noteq> None \<and> pattern \<noteq> Some [] then
        new_percolator_loop A s (query_string_parser A pattern) (mappings A) es
      else Inr es)"

text \<open>The loop of \<^verbatim>\<open>_delete_percolator\<close> over \<^verbatim>\<open>current_search.mappings.keys()\<close>.\<close>

fun delete_percolator_loop ::
  "('q, 'd) app \<Rightarrow> string \<Rightarrow> string list \<Rightarrow> 'q engine \<Rightarrow> error + 'q engine" where
  "delete_percolator_loop A s [] es = Inr es"
| "delete_percolator_loop A s (index # rest) es =
     (case get_percolator_doc_type A index of
        Inl e \<Rightarrow> Inl e
      | Inr percolator_doc_type \<Rightarrow>
          (case create_percolator_mapping A index percolator_doc_type None es of
             Inl e \<Rightarrow> Inl e
           | Inr es1 \<Rightarrow>
               (case es_delete (build_percolator_index_name A index)
                       (oaiset_id s) [404] es1 of
                  Inl e \<Rightarrow> Inl e
                | Inr es2 \<Rightarrow> delete_percolator_loop A s rest es2)))"

definition delete_percolator ::
  "('q, 'd) app \<Rightarrow> string \<Rightarrow> string option \<Rightarrow> 'q engine \<Rightarrow> error + 'q engine" where
  "delete_percolator A s pattern es =
     (if s \<noteq> [] then delete_percolator_loop A s (map fst (mappings A)) es
      else Inr es)"

text \<open>
  \<^verbatim>\<open>current_oaiserver.sets\<close> is a property of the application's state object, which
  is outside this module. With a cache object, reading it gives what the cache holds
  under the key of the sets and writing it stores the value there; with none, reading it
  gives \<^verbatim>\<open>None\<close> and writing it stores nothing. The value passed along is what the
  cache holds.
\<close>

definition sets_getter :: "('q, 'd) app \<Rightarrow> string list option \<Rightarrow> string list option" where
  "sets_getter A held = (if oaiserver_cache A then held else None)"

definition sets_setter ::
  "('q, 'd) app \<Rightarrow> string list \<Rightarrow> string list option \<Rightarrow> string list option" where
  "sets_setter A values held = (if oaiserver_cache A then Some values else held)"

text \<open>
  \<^verbatim>\<open>_build_cache\<close>: the value returned and what the cache holds after the call. The
  table is read only when \<^verbatim>\<open>current_oaiserver.sets\<close> reads as \<^verbatim>\<open>None\<close>; the filter is
  \<^verbatim>\<open>OAISet.search_pattern.is_(None)\<close>.
\<close>

definition build_cache ::
  "('q, 'd) app \<Rightarrow> oaiset list \<Rightarrow> string list option
     \<Rightarrow> string list \<times> string list option" where
  "build_cache A table held =
     (case sets_getter A held of
        None \<Rightarrow>
          (let built = map spec (filter (\<lambda>oaiset. search_pattern oaiset = None) table)
           in (built, sets_setter A built held))
      | Some cached \<Rightarrow> (cached, held))"

text \<open>
  \<^verbatim>\<open>get_record_sets\<close> is a generator with two loops. The first yields from the cache,
  the second from the percolator's hits.
\<close>

definition get_record_sets_static ::
  "('q, 'd) app \<Rightarrow> oaiset list \<Rightarrow> 'd \<Rightarrow> string list option
     \<Rightarrow> string list \<times> string list option" where
  "get_record_sets_static A table record sets =
     (let record_sets = set (record_sets_fetcher A record);
          (cache, sets') = build_cache A table sets
      in (filter (\<lambda>s. s \<in> record_sets) cache, sets'))"

definition startswith :: "string \<Rightarrow> string \<Rightarrow> bool" where
  "startswith s p = (take (length p) s = p)"

text \<open>The last loop of \<^verbatim>\<open>get_record_sets\<close>, over the hits.\<close>

definition strip_hits :: "string list \<Rightarrow> string list" where
  "strip_hits results =
     (let prefix = ''oaiset-''; prefix_len = length prefix
      in map (drop prefix_len) (filter (\<lambda>set_name. startswith set_name prefix) results))"

definition get_record_sets_percolated ::
  "('q, 'd) app \<Rightarrow> 'd \<Rightarrow> 'q engine \<Rightarrow> error + (string list \<times> 'q engine)" where
  "get_record_sets_percolated A record es =
     (let (index, doc_type) = record_to_index A record;
          document = dumps A record
      in case get_percolator_doc_type A index of
           Inl e \<Rightarrow> Inl e
         | Inr percolator_doc_type \<Rightarrow>
             (case create_percolator_mapping A index percolator_doc_type None es of
                Inl e \<Rightarrow> Inl e
              | Inr es1 \<Rightarrow>
                  (case percolate_query_single A index doc_type percolator_doc_type
                          document es1 of
                     Inl e \<Rightarrow> Inl e
                   | Inr results \<Rightarrow> Inr (strip_hits results, es1))))"

text \<open>
  The whole generator, run to its end: the names yielded, the cache, and either the
  error that ended it or the engine it leaves.
\<close>

definition get_record_sets ::
  "('q, 'd) app \<Rightarrow> oaiset list \<Rightarrow> 'd \<Rightarrow> string list option \<Rightarrow> 'q engine
     \<Rightarrow> string list \<times> string list option \<times> (error + 'q engine)" where
  "get_record_sets A table record sets es =
     (let (static, sets') = get_record_sets_static A table record sets
      in case get_record_sets_percolated A record es of
           Inl e \<Rightarrow> (static, sets', Inl e)
         | Inr (names, es') \<Rightarrow> (static @ names, sets', Inr es'))"

text \<open>Python's \<^verbatim>\<open>if percolator_ids\<close>: a list with an element.\<close>

definition create_percolate_query ::
  "string list option \<Rightarrow> 'd list option \<Rightarrow> string list option \<Rightarrow> string list option
     \<Rightarrow> 'd body" where
  "create_percolate_query percolator_ids docs document_es_ids document_es_indices =
     (let ids_clause =
            (if percolator_ids \<noteq> None \<and> percolator_ids \<noteq> Some []
             then [Ids (the percolator_ids)] else [])
      in if docs \<noteq> None then
           Query_bool_must ([Percolate_documents (the docs)] @ ids_clause)
         else if document_es_ids \<noteq> None \<and> document_es_indices \<noteq> None
                 \<and> length (the document_es_ids) = length (the document_es_indices) then
           Query_bool_must
             (map (\<lambda>(es_id, es_index).
                     Percolate_stored es_index es_id (es_index @ '':'' @ es_id))
                (zip (the document_es_ids) (the document_es_indices)) @ ids_clause)
         else Empty_body)"

definition rdm_index :: string where
  "rdm_index = ''rdmrecords-records-record-v4.0.0''"

text \<open>
  The loop of \<^verbatim>\<open>index_sets\<close> over the rows of the table. Its \<^verbatim>\<open>index\<close> call passes
  no \<^verbatim>\<open>doc_type\<close>.
\<close>

fun index_sets_loop ::
  "('q, 'd) app \<Rightarrow> string \<Rightarrow> oaiset list \<Rightarrow> 'q engine \<Rightarrow> error + 'q engine" where
  "index_sets_loop A index [] es = Inr es"
| "index_sets_loop A index (s # rest) es =
     (case es_index_doc A (build_percolator_index_name A index) None (spec s)
             (query_string_parser A (search_pattern s)) es of
        Inl e \<Rightarrow> Inl e
      | Inr es1 \<Rightarrow> index_sets_loop A index rest es1)"

definition index_sets :: "('q, 'd) app \<Rightarrow> oaiset list \<Rightarrow> 'q engine \<Rightarrow> error + 'q engine" where
  "index_sets A table es =
     (if table = [] then Inr es
      else
        (let index = rdm_index in
         case get_percolator_doc_type A index of
           Inl e \<Rightarrow> Inl e
         | Inr percolator_doc_type \<Rightarrow>
             (case create_percolator_mapping A index percolator_doc_type None es of
                Inl e \<Rightarrow> Inl e
              | Inr es1 \<Rightarrow> index_sets_loop A index table es1)))"

text \<open>
  \<^verbatim>\<open>percolate_query\<close>: the hits and the engine it leaves. The scroll it opens is never
  read, so the hits are the first page.
\<close>

definition percolate_query ::
  "('q, 'd) app \<Rightarrow> oaiset list \<Rightarrow> string \<Rightarrow> string list option \<Rightarrow> 'd list option
     \<Rightarrow> string list option \<Rightarrow> string list option \<Rightarrow> 'q engine
     \<Rightarrow> error + (string list \<times> 'q engine)" where
  "percolate_query A table percolator_index percolator_ids docs document_es_ids
       document_es_indices es =
     (case index_sets A table es of
        Inl e \<Rightarrow> Inl e
      | Inr es1 \<Rightarrow>
          (case es_search A percolator_index
                  (create_percolate_query percolator_ids docs document_es_ids
                     document_es_indices)
                  (Some 20) False es1 of
             Inl e \<Rightarrow> Inl e
           | Inr hits \<Rightarrow> Inr (hits, es1)))"

definition record_in_set ::
  "('q, 'd) app \<Rightarrow> oaiset list \<Rightarrow> 'd \<Rightarrow> string \<Rightarrow> 'q engine \<Rightarrow> error + (bool \<times> 'q engine)" where
  "record_in_set A table record set_spec es =
     (let percolator_index = build_percolator_index_name A rdm_index in
      case percolate_query A table percolator_index (Some [set_spec]) (Some [record])
             None None es of
        Inl e \<Rightarrow> Inl e
      | Inr (result, es1) \<Rightarrow> Inr (length result > 0, es1))"

definition find_sets_for_record ::
  "('q, 'd) app \<Rightarrow> oaiset list \<Rightarrow> 'd \<Rightarrow> 'q engine \<Rightarrow> error + (string list \<times> 'q engine)" where
  "find_sets_for_record A table record es =
     percolate_query A table ''rdmrecords-records-record-v4.0.0-percolators'' None
       (Some [record]) None None es"

subsection \<open>Reading the engine\<close>

text \<open>The stored query an index holds under an id, if any.\<close>

definition doc_at :: "'q engine \<Rightarrow> string \<Rightarrow> string \<Rightarrow> 'q option" where
  "doc_at es name ident =
     (case map_of es name of None \<Rightarrow> None | Some ix \<Rightarrow> map_of (documents ix) ident)"

text \<open>The mapping of an index, if the index exists.\<close>

definition mapping_at :: "'q engine \<Rightarrow> string \<Rightarrow> (string \<times> string) list option" where
  "mapping_at es name = map_option properties (map_of es name)"

subsection \<open>An application to run the module on\<close>

text \<open>
  A small application for concrete runs: engine version 7, no index prefix, the one
  mapping the module names, a stored query that is its search pattern and matches the
  documents equal to it, a cache object.
\<close>

definition example_app :: "(string option, string) app" where
  "example_app =
     \<lparr>ES_VERSION = 7,
      build_index_name = (\<lambda>index suffix. index @ suffix),
      mappings = [(rdm_index, ''record-v4.0.0.json'')],
      load_mapping = (\<lambda>path. Inr [(''title'', ''text'')]),
      schema_to_index = (\<lambda>path. ''_doc''),
      query_string_parser = (\<lambda>pattern. pattern),
      valid_query = (\<lambda>q. True),
      percolates = (\<lambda>q d. q = Some d),
      get_document = (\<lambda>index ident. None),
      record_sets_fetcher = (\<lambda>record. if record = ''bound'' then [''curated''] else []),
      record_to_index = (\<lambda>record. (rdm_index, ''_doc'')),
      dumps = (\<lambda>record. record),
      oaiserver_cache = True\<rparr>"

text \<open>The same application on engine version 6.\<close>

definition example_app_es6 :: "(string option, string) app" where
  "example_app_es6 = example_app\<lparr>ES_VERSION := 6\<rparr>"

text \<open>The same application with no cache object.\<close>

definition example_app_no_cache :: "(string option, string) app" where
  "example_app_no_cache = example_app\<lparr>oaiserver_cache := False\<rparr>"



text \<open>Twenty-one sets with the same search pattern.\<close>

definition table21 :: "oaiset list" where
  "table21 =
     map (\<lambda>n. \<lparr>spec = replicate n (CHR ''s''), search_pattern = Some ''x''\<rparr>) [1..<22]"

section \<open>Properties\<close>

subsection \<open>The fallback of \<^verbatim>\<open>create_percolate_query\<close>\<close>

lemma matching_Empty_body: "matching A Empty_body ix = map fst (documents ix)"
  by (simp add: matching_def)

text \<open>
  Claim C10. When \<^verbatim>\<open>documents\<close> is absent and \<^verbatim>\<open>document_es_ids\<close> and
  \<^verbatim>\<open>document_es_indices\<close> are not both given with equal lengths,
  \<^verbatim>\<open>create_percolate_query\<close> returns the empty body, raising nothing, and
  \<^verbatim>\<open>percolate_query\<close> sends that body to the engine: after re-indexing the sets, its
  hits are the first twenty documents of the index, whatever they are and whatever
  \<^verbatim>\<open>percolator_ids\<close> says.
\<close>

theorem create_percolate_query_empty_fallback:
  assumes "\<not> (document_es_ids \<noteq> None \<and> document_es_indices \<noteq> None
              \<and> length (the document_es_ids) = length (the document_es_indices))"
  shows "create_percolate_query percolator_ids None document_es_ids document_es_indices
           = (Empty_body :: 'd body)
       \<and> percolate_query A table percolator_index percolator_ids (None :: 'd list option)
           document_es_ids document_es_indices es =
         (case index_sets A table es of
            Inl e \<Rightarrow> Inl e
          | Inr es1 \<Rightarrow>
              (case map_of es1 percolator_index of
                 None \<Rightarrow> Inl NotFoundError
               | Some ix \<Rightarrow> Inr (take 20 (map fst (documents ix)), es1)))"
proof -
  have b: "create_percolate_query percolator_ids None document_es_ids document_es_indices
             = (Empty_body :: 'd body)"
    using assms by (simp add: create_percolate_query_def)
  show ?thesis
    by (simp add: b percolate_query_def es_search_def matching_Empty_body
          split: sum.splits option.splits)
qed

theorem create_percolate_query_empty_fallback_witness:
  "\<not> (Some [''1''] \<noteq> None \<and> (None :: string list option) \<noteq> None
        \<and> length (the (Some [''1''])) = length (the (None :: string list option)))
   \<and> create_percolate_query (Some [''a'']) None (Some [''1'']) None
       = (Empty_body :: string body)
   \<and> percolate_query example_app
        [\<lparr>spec = ''a'', search_pattern = Some ''x''\<rparr>,
         \<lparr>spec = ''b'', search_pattern = Some ''y''\<rparr>]
        ''rdmrecords-records-record-v4.0.0-percolators'' (Some [''a'']) None
        (Some [''1'']) None []
      = Inr ([''a'', ''b''],
             [(''rdmrecords-records-record-v4.0.0-percolators'',
               \<lparr>properties = [(''title'', ''text''), (''query'', ''percolator'')],
                documents = [(''a'', Some ''x''), (''b'', Some ''y'')]\<rparr>)])"
proof -
  have h: "\<not> (Some [''1''] \<noteq> None \<and> (None :: string list option) \<noteq> None
        \<and> length (the (Some [''1''])) = length (the (None :: string list option)))"
    by simp
  have r: "index_sets example_app
        [\<lparr>spec = ''a'', search_pattern = Some ''x''\<rparr>,
         \<lparr>spec = ''b'', search_pattern = Some ''y''\<rparr>] []
      = Inr [(''rdmrecords-records-record-v4.0.0-percolators'',
               \<lparr>properties = [(''title'', ''text''), (''query'', ''percolator'')],
                documents = [(''a'', Some ''x''), (''b'', Some ''y'')]\<rparr>)]"
    by code_simp
  show ?thesis
    using create_percolate_query_empty_fallback [OF h, of "Some [''a'']" example_app
        "[\<lparr>spec = ''a'', search_pattern = Some ''x''\<rparr>,
          \<lparr>spec = ''b'', search_pattern = Some ''y''\<rparr>]"
        "''rdmrecords-records-record-v4.0.0-percolators''" "[]"]
    by (simp add: r)
qed

subsection \<open>The page of twenty hits\<close>

lemma es_search_Some:
  "es_search A name b (Some n) False es = Inr hits \<Longrightarrow>
     \<exists>ix. map_of es name = Some ix \<and> hits = take n (matching A b ix)"
  by (auto simp: es_search_def split: if_splits option.splits)

lemma percolate_query_Inr:
  assumes "percolate_query A table percolator_index percolator_ids docs document_es_ids
             document_es_indices es = Inr (hits, es')"
  shows "index_sets A table es = Inr es'
       \<and> es_search A percolator_index
           (create_percolate_query percolator_ids docs document_es_ids document_es_indices)
           (Some 20) False es' = Inr hits"
  using assms by (auto simp: percolate_query_def split: sum.splits)

text \<open>
  Claim C9. \<^verbatim>\<open>percolate_query\<close> returns at most twenty hits on every input: its hits
  are the first twenty of the stored queries that match, since the search is made with
  \<^verbatim>\<open>size=20\<close> and the scroll is never read. The same holds for
  \<^verbatim>\<open>find_sets_for_record\<close>, so a matching set beyond the twentieth is left out (the
  run below has twenty-one matching sets and returns twenty).
\<close>

theorem percolate_query_at_most_20_hits:
  "(percolate_query A table percolator_index percolator_ids docs document_es_ids
       document_es_indices es = Inr (hits, es')
     \<longrightarrow> length hits \<le> 20
       \<and> (\<exists>ix. map_of es' percolator_index = Some ix
             \<and> hits = take 20 (matching A (create_percolate_query percolator_ids docs
                                  document_es_ids document_es_indices) ix)))
   \<and> (find_sets_for_record A table record es = Inr (ids, es'')
     \<longrightarrow> length ids \<le> 20
       \<and> (\<exists>ix. map_of es'' ''rdmrecords-records-record-v4.0.0-percolators'' = Some ix
             \<and> ids = take 20 (matching A (create_percolate_query None (Some [record])
                                  None None) ix)))"
proof -
  have main: "length h \<le> 20
       \<and> (\<exists>ix. map_of e pidx = Some ix
             \<and> h = take 20 (matching A (create_percolate_query pids ds eids eidx) ix))"
    if "percolate_query A table pidx pids ds eids eidx es = Inr (h, e)"
    for pidx pids ds eids eidx h e
  proof -
    from percolate_query_Inr [OF that]
    have "es_search A pidx (create_percolate_query pids ds eids eidx) (Some 20) False e
            = Inr h" by simp
    from es_search_Some [OF this] show ?thesis by auto
  qed
  show ?thesis
    using main by (auto simp: find_sets_for_record_def)
qed

theorem percolate_query_at_most_20_hits_witness:
  "percolate_query example_app table21 ''rdmrecords-records-record-v4.0.0-percolators''
       None (Some [''x'']) None None []
     = find_sets_for_record example_app table21 ''x'' []
   \<and> (case find_sets_for_record example_app table21 ''x'' [] of
        Inl e \<Rightarrow> False
      | Inr (ids, es) \<Rightarrow>
          length ids = 20 \<and> replicate 21 (CHR ''s'') \<notin> set ids
          \<and> (case map_of es ''rdmrecords-records-record-v4.0.0-percolators'' of
               None \<Rightarrow> False
             | Some ix \<Rightarrow>
                 ids = take 20 (matching example_app
                          (create_percolate_query None (Some [''x'']) None None) ix)
                 \<and> replicate 21 (CHR ''s'') \<in> set (matching example_app
                          (create_percolate_query None (Some [''x'']) None None) ix)))"
proof -
  obtain ids es where r: "find_sets_for_record example_app table21 ''x'' [] = Inr (ids, es)"
    and l: "length ids = 20" and o: "replicate 21 (CHR ''s'') \<notin> set ids"
    and m: "case map_of es ''rdmrecords-records-record-v4.0.0-percolators'' of
               None \<Rightarrow> False
             | Some ix \<Rightarrow> replicate 21 (CHR ''s'') \<in> set (matching example_app
                          (create_percolate_query None (Some [''x'']) None None) ix)"
  proof -
    have "case find_sets_for_record example_app table21 ''x'' [] of
        Inl e \<Rightarrow> False
      | Inr (ids, es) \<Rightarrow>
          length ids = 20 \<and> replicate 21 (CHR ''s'') \<notin> set ids
          \<and> (case map_of es ''rdmrecords-records-record-v4.0.0-percolators'' of
               None \<Rightarrow> False
             | Some ix \<Rightarrow> replicate 21 (CHR ''s'') \<in> set (matching example_app
                          (create_percolate_query None (Some [''x'']) None None) ix))"
      by code_simp
    then show ?thesis using that by (auto split: sum.splits prod.splits)
  qed
  have p: "percolate_query example_app table21
       ''rdmrecords-records-record-v4.0.0-percolators''
       None (Some [''x'']) None None [] = Inr (ids, es)"
    using r by (simp add: find_sets_for_record_def)
  from percolate_query_at_most_20_hits [of example_app table21
      "''rdmrecords-records-record-v4.0.0-percolators''" None "Some [''x'']" None None "[]"
      ids es "''x''" ids es] r p
  have "\<exists>ix. map_of es ''rdmrecords-records-record-v4.0.0-percolators'' = Some ix
             \<and> ids = take 20 (matching example_app
                      (create_percolate_query None (Some [''x'']) None None) ix)"
    by blast
  with m l o r p show ?thesis by (auto split: option.splits)
qed

subsection \<open>The cache of sets without a pattern\<close>

text \<open>
  Claim C4, as the code has it. A call of \<^verbatim>\<open>_build_cache\<close> with nothing cached returns
  the names of the sets whose search pattern is \<^verbatim>\<open>None\<close>, in the table's order. With a
  cache object the list is stored, and every later call returns the stored list whatever
  the table holds by then, so the table is not read again. With no cache object nothing
  is stored, and every call reads the table it is given.
\<close>

theorem build_cache_first_call_then_memoized:
  "fst (build_cache A table None) = map spec (filter (\<lambda>s. search_pattern s = None) table)
   \<and> (oaiserver_cache A
      \<longrightarrow> snd (build_cache A table None)
            = Some (map spec (filter (\<lambda>s. search_pattern s = None) table))
        \<and> build_cache A table' (snd (build_cache A table None)) = build_cache A table None
        \<and> build_cache A table' (Some cached) = (cached, Some cached))
   \<and> (\<not> oaiserver_cache A
      \<longrightarrow> snd (build_cache A table held) = held
        \<and> build_cache A table' (snd (build_cache A table held))
            = (map spec (filter (\<lambda>s. search_pattern s = None) table'), held))"
  by (simp add: build_cache_def sets_getter_def sets_setter_def Let_def)

theorem build_cache_first_call_then_memoized_witness:
  "oaiserver_cache example_app
   \<and> build_cache example_app
        [\<lparr>spec = ''a'', search_pattern = None\<rparr>, \<lparr>spec = ''b'', search_pattern = Some ''x''\<rparr>]
        None
     = ([''a''], Some [''a''])
   \<and> build_cache example_app [] (Some [''a'']) = ([''a''], Some [''a''])
   \<and> \<not> oaiserver_cache example_app_no_cache
   \<and> build_cache example_app_no_cache
        [\<lparr>spec = ''a'', search_pattern = None\<rparr>, \<lparr>spec = ''b'', search_pattern = Some ''x''\<rparr>]
        None
     = ([''a''], None)
   \<and> build_cache example_app_no_cache [] None = ([], None)"
proof -
  let ?T = "[\<lparr>spec = ''a'', search_pattern = None\<rparr>,
             \<lparr>spec = ''b'', search_pattern = Some ''x''\<rparr>]"
  have c: "oaiserver_cache example_app" by (simp add: example_app_def)
  have n: "\<not> oaiserver_cache example_app_no_cache"
    by (simp add: example_app_no_cache_def example_app_def)
  from build_cache_first_call_then_memoized [of example_app ?T "[]" "[''a'']"] c
  have a: "build_cache example_app ?T None = ([''a''], Some [''a''])"
    and b: "build_cache example_app [] (Some [''a'']) = ([''a''], Some [''a''])"
    by (simp_all add: prod_eq_iff)
  from build_cache_first_call_then_memoized [of example_app_no_cache ?T "[]" _ None] n
  have t: "fst (build_cache example_app_no_cache ?T None) = [''a'']
      \<and> snd (build_cache example_app_no_cache ?T None) = None
      \<and> build_cache example_app_no_cache [] (snd (build_cache example_app_no_cache ?T None))
          = ([], None)"
    by auto
  from t have d1: "fst (build_cache example_app_no_cache ?T None) = [''a'']"
    by blast
  from t have d2: "snd (build_cache example_app_no_cache ?T None) = None"
    by blast
  from t have e: "build_cache example_app_no_cache []
                    (snd (build_cache example_app_no_cache ?T None)) = ([], None)"
    by blast
  from d1 d2 have d: "build_cache example_app_no_cache ?T None = ([''a''], None)"
    by (simp add: prod_eq_iff)
  from e have f: "build_cache example_app_no_cache [] None = ([], None)"
    by (simp only: d2)
  from c n a b d f show ?thesis by simp
qed

text \<open>
  A set whose search pattern is the empty string is not in the list the first call
  returns: the filter is \<^verbatim>\<open>is_(None)\<close>. And with no cache object the second call does
  not return what the first returned: it reads the table again.
\<close>

theorem build_cache_empty_pattern_counterexample:
  "search_pattern \<lparr>spec = ''a'', search_pattern = Some []\<rparr> = Some []
   \<and> ''a'' \<notin> set (fst (build_cache example_app
                          [\<lparr>spec = ''a'', search_pattern = Some []\<rparr>] None))
   \<and> fst (build_cache example_app_no_cache [\<lparr>spec = ''b'', search_pattern = None\<rparr>] None)
     = [''b'']
   \<and> fst (build_cache example_app_no_cache []
           (snd (build_cache example_app_no_cache
                   [\<lparr>spec = ''b'', search_pattern = None\<rparr>] None)))
     = []"
  by code_simp

subsection \<open>The static step of \<^verbatim>\<open>get_record_sets\<close>\<close>

text \<open>
  Claim C5, as the code has it. The first loop of \<^verbatim>\<open>get_record_sets\<close> yields the names
  \<^verbatim>\<open>_build_cache\<close> returns, in order, that \<^verbatim>\<open>record_sets_fetcher\<close> lists for the record;
  they are the first names the generator yields. When \<^verbatim>\<open>_build_cache\<close> reads the table
  (nothing is cached, or there is no cache object), and when the cache holds what was
  built from this table, they are exactly the names of the sets of the table with no
  search pattern that the record is bound to. When the cache holds a list, they are
  exactly the names of that list the record is bound to.
\<close>

theorem get_record_sets_static_is_intersection:
  "fst (get_record_sets_static A table record held)
     = filter (\<lambda>s. s \<in> set (record_sets_fetcher A record)) (fst (build_cache A table held))
   \<and> (held = None \<or> \<not> oaiserver_cache A
      \<longrightarrow> set (fst (get_record_sets_static A table record held))
            = spec ` {s \<in> set table. search_pattern s = None}
              \<inter> set (record_sets_fetcher A record))
   \<and> (oaiserver_cache A
      \<longrightarrow> set (fst (get_record_sets_static A table record (snd (build_cache A table None))))
            = spec ` {s \<in> set table. search_pattern s = None}
              \<inter> set (record_sets_fetcher A record))
   \<and> (oaiserver_cache A \<and> held = Some cached
      \<longrightarrow> set (fst (get_record_sets_static A table record held))
            = set cached \<inter> set (record_sets_fetcher A record))
   \<and> (\<exists>names. fst (get_record_sets A table record held es)
               = fst (get_record_sets_static A table record held) @ names)"
proof -
  have f: "fst (get_record_sets_static A table record h)
     = filter (\<lambda>s. s \<in> set (record_sets_fetcher A record)) (fst (build_cache A table h))"
    for h
    by (simp add: get_record_sets_static_def Let_def split: prod.splits)
  have r: "fst (build_cache A table h) = map spec (filter (\<lambda>s. search_pattern s = None) table)"
    if "h = None \<or> \<not> oaiserver_cache A" for h
    using that by (auto simp: build_cache_def sets_getter_def Let_def)
  have c: "fst (build_cache A table (Some cs)) = cs" if "oaiserver_cache A" for cs
    using that by (simp add: build_cache_def sets_getter_def)
  have m: "snd (build_cache A table None)
             = Some (map spec (filter (\<lambda>s. search_pattern s = None) table))"
    if "oaiserver_cache A"
    using that by (simp add: build_cache_def sets_getter_def sets_setter_def Let_def)
  have s: "set (filter (\<lambda>s. s \<in> B) (map spec (filter (\<lambda>s. search_pattern s = None) table)))
             = spec ` {s \<in> set table. search_pattern s = None} \<inter> B" for B
    by auto
  have p: "\<exists>names. fst (get_record_sets A table record held es)
               = fst (get_record_sets_static A table record held) @ names"
    by (auto simp: get_record_sets_def Let_def split: prod.splits sum.splits)
  show ?thesis
  proof (intro conjI impI)
    show "fst (get_record_sets_static A table record held)
     = filter (\<lambda>s. s \<in> set (record_sets_fetcher A record)) (fst (build_cache A table held))"
      by (rule f)
  next
    assume "held = None \<or> \<not> oaiserver_cache A"
    from r [OF this] show "set (fst (get_record_sets_static A table record held))
            = spec ` {s \<in> set table. search_pattern s = None}
              \<inter> set (record_sets_fetcher A record)"
      by (simp only: f s)
  next
    assume a: "oaiserver_cache A"
    show "set (fst (get_record_sets_static A table record (snd (build_cache A table None))))
            = spec ` {s \<in> set table. search_pattern s = None}
              \<inter> set (record_sets_fetcher A record)"
      by (simp only: f m [OF a] c [OF a] s)
  next
    assume a: "oaiserver_cache A \<and> held = Some cached"
    then have "fst (build_cache A table held) = cached" using c by blast
    then show "set (fst (get_record_sets_static A table record held))
            = set cached \<inter> set (record_sets_fetcher A record)"
      by (auto simp: f)
  next
    show "\<exists>names. fst (get_record_sets A table record held es)
               = fst (get_record_sets_static A table record held) @ names"
      by (rule p)
  qed
qed

theorem get_record_sets_static_is_intersection_witness:
  "fst (get_record_sets_static example_app
          [\<lparr>spec = ''curated'', search_pattern = None\<rparr>,
           \<lparr>spec = ''physics'', search_pattern = Some ''x''\<rparr>] ''bound'' None)
     = [''curated'']
   \<and> fst (get_record_sets_static example_app
          [\<lparr>spec = ''curated'', search_pattern = None\<rparr>,
           \<lparr>spec = ''physics'', search_pattern = Some ''x''\<rparr>] ''bound''
          (Some [''curated'', ''other'']))
     = [''curated'']
   \<and> set (fst (get_record_sets_static example_app
          [\<lparr>spec = ''curated'', search_pattern = None\<rparr>,
           \<lparr>spec = ''physics'', search_pattern = Some ''x''\<rparr>] ''bound'' None))
     = spec ` {s \<in> set [\<lparr>spec = ''curated'', search_pattern = None\<rparr>,
                         \<lparr>spec = ''physics'', search_pattern = Some ''x''\<rparr>].
               search_pattern s = None}
       \<inter> set (record_sets_fetcher example_app ''bound'')
   \<and> set (fst (get_record_sets_static example_app
          [\<lparr>spec = ''curated'', search_pattern = None\<rparr>,
           \<lparr>spec = ''physics'', search_pattern = Some ''x''\<rparr>] ''bound''
          (Some [''curated'', ''other''])))
     = set [''curated'', ''other''] \<inter> set (record_sets_fetcher example_app ''bound'')
   \<and> set (fst (get_record_sets_static example_app
          [\<lparr>spec = ''curated'', search_pattern = None\<rparr>,
           \<lparr>spec = ''physics'', search_pattern = Some ''x''\<rparr>] ''bound''
          (snd (build_cache example_app
                  [\<lparr>spec = ''curated'', search_pattern = None\<rparr>,
                   \<lparr>spec = ''physics'', search_pattern = Some ''x''\<rparr>] None))))
     = spec ` {s \<in> set [\<lparr>spec = ''curated'', search_pattern = None\<rparr>,
                         \<lparr>spec = ''physics'', search_pattern = Some ''x''\<rparr>].
               search_pattern s = None}
       \<inter> set (record_sets_fetcher example_app ''bound'')
   \<and> \<not> oaiserver_cache example_app_no_cache
   \<and> set (fst (get_record_sets_static example_app_no_cache
          [\<lparr>spec = ''curated'', search_pattern = None\<rparr>,
           \<lparr>spec = ''physics'', search_pattern = Some ''x''\<rparr>] ''bound''
          (Some [''other''])))
     = spec ` {s \<in> set [\<lparr>spec = ''curated'', search_pattern = None\<rparr>,
                         \<lparr>spec = ''physics'', search_pattern = Some ''x''\<rparr>].
               search_pattern s = None}
       \<inter> set (record_sets_fetcher example_app_no_cache ''bound'')"
proof -
  let ?T = "[\<lparr>spec = ''curated'', search_pattern = None\<rparr>,
             \<lparr>spec = ''physics'', search_pattern = Some ''x''\<rparr>]"
  have c: "oaiserver_cache example_app" by (simp add: example_app_def)
  have n: "\<not> oaiserver_cache example_app_no_cache"
    by (simp add: example_app_no_cache_def example_app_def)
  from get_record_sets_static_is_intersection [of example_app ?T "''bound''"] c
  have g: "set (fst (get_record_sets_static example_app ?T ''bound''
                      (snd (build_cache example_app ?T None))))
     = spec ` {s \<in> set ?T. search_pattern s = None}
       \<inter> set (record_sets_fetcher example_app ''bound'')"
    by blast
  from get_record_sets_static_is_intersection [of example_app_no_cache ?T "''bound''"
      "Some [''other'']"] n
  have h: "set (fst (get_record_sets_static example_app_no_cache ?T ''bound''
                      (Some [''other''])))
     = spec ` {s \<in> set ?T. search_pattern s = None}
       \<inter> set (record_sets_fetcher example_app_no_cache ''bound'')"
    by blast
  have a: "fst (get_record_sets_static example_app ?T ''bound'' None) = [''curated'']"
    by code_simp
  have b: "fst (get_record_sets_static example_app ?T ''bound'' (Some [''curated'', ''other'']))
             = [''curated'']"
    by code_simp
  from get_record_sets_static_is_intersection [of example_app ?T "''bound''" None]
  have d: "set (fst (get_record_sets_static example_app ?T ''bound'' None))
     = spec ` {s \<in> set ?T. search_pattern s = None}
       \<inter> set (record_sets_fetcher example_app ''bound'')"
    by blast
  from get_record_sets_static_is_intersection [of example_app ?T "''bound''"
      "Some [''curated'', ''other'']" "[''curated'', ''other'']"] c
  have e: "set (fst (get_record_sets_static example_app ?T ''bound''
                      (Some [''curated'', ''other''])))
     = set [''curated'', ''other''] \<inter> set (record_sets_fetcher example_app ''bound'')"
    by blast
  from a b d e g n h show ?thesis by blast
qed

text \<open>
  A name the first loop yields need not be the name of a set without a pattern. The
  cache is built while the set \<^verbatim>\<open>curated\<close> has no pattern; the set is then given one
  and the cache is not cleared; the loop still yields \<^verbatim>\<open>curated\<close>.
\<close>

theorem get_record_sets_static_stale_cache_counterexample:
  "snd (build_cache example_app [\<lparr>spec = ''curated'', search_pattern = None\<rparr>] None)
     = Some [''curated'']
   \<and> fst (get_record_sets_static example_app
            [\<lparr>spec = ''curated'', search_pattern = Some ''x''\<rparr>] ''bound''
            (Some [''curated'']))
     = [''curated'']
   \<and> search_pattern \<lparr>spec = ''curated'', search_pattern = Some ''x''\<rparr> = Some ''x''"
  by code_simp

subsection \<open>What the calls do to the stored queries\<close>

lemma doc_at_es_index_doc:
  "es_index_doc A n dt i q es = Inr es' \<Longrightarrow>
     doc_at es' n' k = (if n' = n \<and> k = i then Some q else doc_at es n' k)"
  by (auto simp: es_index_doc_def doc_at_def update_conv' split: if_splits option.splits)

lemma doc_at_es_delete:
  "es_delete n i ig es = Inr es' \<Longrightarrow>
     doc_at es' n' k = (if n' = n \<and> k = i then None else doc_at es n' k)"
  by (auto simp: es_delete_def doc_at_def update_conv' delete_conv'
           split: if_splits option.splits)

lemma doc_at_es_create:
  "es_create n props es = Inr es' \<Longrightarrow> doc_at es' n' k = doc_at es n' k"
  by (auto simp: es_create_def es_exists_def doc_at_def update_conv'
           split: if_splits option.splits)

lemma doc_at_es_put_mapping:
  "es_put_mapping n props es = Inr es' \<Longrightarrow> doc_at es' n' k = doc_at es n' k"
  by (auto simp: es_put_mapping_def doc_at_def update_conv' split: if_splits option.splits)

lemma doc_at_create_percolator_mapping:
  "create_percolator_mapping A index dt mp es = Inr es' \<Longrightarrow> doc_at es' n k = doc_at es n k"
  by (auto simp: create_percolator_mapping_def Let_def doc_at_es_create doc_at_es_put_mapping
           split: if_splits sum.splits option.splits)

lemma doc_at_new_percolator_loop:
  "new_percolator_loop A s q ms es = Inr es' \<Longrightarrow>
     doc_at es' n k =
       (if k = oaiset_id s \<and> n \<in> build_percolator_index_name A ` fst ` set ms
        then Some q else doc_at es n k)"
proof (induction ms arbitrary: es)
  case Nil
  then show ?case by simp
next
  case (Cons m ms)
  obtain index path where m: "m = (index, path)" by (cases m)
  from Cons.prems m obtain dt es1 es2 where
    c: "create_percolator_mapping A index dt (Some path) es = Inr es1" and
    i: "es_index_doc A (build_percolator_index_name A index) (Some dt) (oaiset_id s) q es1
          = Inr es2" and
    r: "new_percolator_loop A s q ms es2 = Inr es'"
    by (auto split: sum.splits)
  show ?case
    using Cons.IH [OF r] doc_at_es_index_doc [OF i, of n k]
      doc_at_create_percolator_mapping [OF c, of n k] m
    by auto
qed

lemma doc_at_delete_percolator_loop:
  "delete_percolator_loop A s ks es = Inr es' \<Longrightarrow>
     doc_at es' n k =
       (if k = oaiset_id s \<and> n \<in> build_percolator_index_name A ` set ks
        then None else doc_at es n k)"
proof (induction ks arbitrary: es)
  case Nil
  then show ?case by simp
next
  case (Cons index ks)
  from Cons.prems obtain dt es1 es2 where
    c: "create_percolator_mapping A index dt None es = Inr es1" and
    d: "es_delete (build_percolator_index_name A index) (oaiset_id s) [404] es1 = Inr es2" and
    r: "delete_percolator_loop A s ks es2 = Inr es'"
    by (auto split: sum.splits)
  show ?case
    using Cons.IH [OF r] doc_at_es_delete [OF d, of n k]
      doc_at_create_percolator_mapping [OF c, of n k]
    by auto
qed


lemma startswith_drop: "(startswith x p \<and> n = drop (length p) x) = (x = p @ n)"
  by (auto simp: startswith_def) (metis append_take_drop_id)

lemma strip_prefix_set:
  "set (map (drop (length p)) (filter (\<lambda>x. startswith x p) results))
     = {n. p @ n \<in> set results}"
proof (rule set_eqI)
  fix n
  have "n \<in> set (map (drop (length p)) (filter (\<lambda>x. startswith x p) results))
          = (\<exists>x \<in> set results. startswith x p \<and> n = drop (length p) x)"
    by auto
  also have "\<dots> = (p @ n \<in> set results)"
    by (simp add: startswith_drop)
  finally show "n \<in> set (map (drop (length p)) (filter (\<lambda>x. startswith x p) results))
                  = (n \<in> {n. p @ n \<in> set results})"
    by simp
qed

lemma strip_hits_set: "set (strip_hits results) = {n. ''oaiset-'' @ n \<in> set results}"
proof -
  have "strip_hits results
          = map (drop (length ''oaiset-'')) (filter (\<lambda>x. startswith x ''oaiset-'') results)"
    by (simp add: strip_hits_def Let_def)
  then show ?thesis
    by (simp only: strip_prefix_set)
qed

subsection \<open>The re-indexing inside \<^verbatim>\<open>percolate_query\<close>\<close>











subsection \<open>Sets without a pattern\<close>

text \<open>
  Claim C3, at an input where the code departs from it. The table holds one set,
  \<^verbatim>\<open>curated\<close>, with no search pattern. \<^verbatim>\<open>index_sets\<close>, which every
  \<^verbatim>\<open>percolate_query\<close> runs, writes a percolator document under that set's name;
  \<^verbatim>\<open>_new_percolator\<close> for the same set writes nothing.
\<close>

theorem index_sets_writes_static_set:
  "index_sets example_app [\<lparr>spec = ''curated'', search_pattern = None\<rparr>] []
     = Inr [(''rdmrecords-records-record-v4.0.0-percolators'',
             \<lparr>properties = [(''title'', ''text''), (''query'', ''percolator'')],
              documents = [(''curated'', None)]\<rparr>)]
   \<and> new_percolator example_app ''curated'' None [] = Inr []"
  by code_simp

subsection \<open>Membership by a scoped percolate query\<close>

lemma clause_matches_Ids: "clause_matches A (Ids vs) doc = (fst doc \<in> set vs)"
  by (cases doc) simp

lemma matching_scoped:
  "matching A (create_percolate_query (Some [name]) (Some ds) None None) ix
     = filter (\<lambda>i. i = name)
         (matching A (create_percolate_query None (Some ds) None None) ix)"
  by (simp add: matching_def create_percolate_query_def filter_map comp_def
        clause_matches_Ids conj_commute)

text \<open>
  Claim C2, as the code has it. \<^verbatim>\<open>record_in_set(record, name)\<close> re-indexes the sets
  and is true exactly when \<open>name\<close> is the id of a stored query, in the percolator index
  of \<^verbatim>\<open>rdmrecords-records-record-v4.0.0\<close>, that matches the record: the query scoped to
  \<^verbatim>\<open>percolator_ids = [name]\<close> gives the same answer as the unscoped match on that
  index (all of it, not its first page) followed by a membership test on the ids.
\<close>

theorem record_in_set_is_unscoped_match_membership:
  "record_in_set A table record name es = Inr (b, es')
     \<longrightarrow> index_sets A table es = Inr es'
       \<and> (\<exists>ix. map_of es' (build_percolator_index_name A rdm_index) = Some ix
             \<and> b = (name \<in> set (matching A
                        (create_percolate_query None (Some [record]) None None) ix)))"
proof
  assume a: "record_in_set A table record name es = Inr (b, es')"
  then obtain h where p: "percolate_query A table (build_percolator_index_name A rdm_index)
        (Some [name]) (Some [record]) None None es = Inr (h, es')"
    and b: "b = (length h > 0)"
    by (auto simp: record_in_set_def Let_def split: sum.splits)
  note q = percolate_query_Inr [OF p]
  from q have i: "index_sets A table es = Inr es'" by simp
  from q have "es_search A (build_percolator_index_name A rdm_index)
      (create_percolate_query (Some [name]) (Some [record]) None None) (Some 20) False es'
        = Inr h" by simp
  from es_search_Some [OF this] obtain ix where
    ix: "map_of es' (build_percolator_index_name A rdm_index) = Some ix" and
    h: "h = take 20 (matching A
              (create_percolate_query (Some [name]) (Some [record]) None None) ix)"
    by blast
  have "b = (filter (\<lambda>i. i = name)
         (matching A (create_percolate_query None (Some [record]) None None) ix) \<noteq> [])"
    using b h by (simp add: matching_scoped)
  then have "b = (name \<in> set (matching A
                        (create_percolate_query None (Some [record]) None None) ix))"
    by (auto simp: filter_empty_conv)
  with i ix show "index_sets A table es = Inr es'
       \<and> (\<exists>ix. map_of es' (build_percolator_index_name A rdm_index) = Some ix
             \<and> b = (name \<in> set (matching A
                        (create_percolate_query None (Some [record]) None None) ix)))"
    by blast
qed

theorem record_in_set_is_unscoped_match_membership_witness:
  "record_in_set example_app [\<lparr>spec = ''a'', search_pattern = Some ''x''\<rparr>] ''x'' ''a'' []
     = Inr (True,
            [(''rdmrecords-records-record-v4.0.0-percolators'',
              \<lparr>properties = [(''title'', ''text''), (''query'', ''percolator'')],
               documents = [(''a'', Some ''x'')]\<rparr>)])
   \<and> ''a'' \<in> set (matching example_app
                   (create_percolate_query None (Some [''x'']) None None)
                   \<lparr>properties = [(''title'', ''text''), (''query'', ''percolator'')],
                    documents = [(''a'', Some ''x'')]\<rparr>)"
proof -
  let ?T = "[\<lparr>spec = ''a'', search_pattern = Some ''x''\<rparr>]"
  let ?ix = "\<lparr>properties = [(''title'', ''text''), (''query'', ''percolator'')],
               documents = [(''a'', Some ''x'')]\<rparr>"
  let ?E = "[(''rdmrecords-records-record-v4.0.0-percolators'', ?ix)]"
  have r: "record_in_set example_app ?T ''x'' ''a'' [] = Inr (True, ?E)"
    by code_simp
  have n: "build_percolator_index_name example_app rdm_index
             = ''rdmrecords-records-record-v4.0.0-percolators''"
    by code_simp
  from record_in_set_is_unscoped_match_membership [of example_app ?T "''x''" "''a''" "[]"
      True ?E] r
  have "\<exists>ix. map_of ?E (build_percolator_index_name example_app rdm_index) = Some ix
             \<and> ''a'' \<in> set (matching example_app
                        (create_percolate_query None (Some [''x'']) None None) ix)"
    by simp
  then have "''a'' \<in> set (matching example_app
                   (create_percolate_query None (Some [''x'']) None None) ?ix)"
    by (simp add: n)
  with r show ?thesis by simp
qed

text \<open>
  It is not membership in what \<^verbatim>\<open>get_record_sets\<close> yields. With one set \<^verbatim>\<open>a\<close> whose
  pattern matches the record, \<^verbatim>\<open>record_in_set\<close> is true, and \<^verbatim>\<open>get_record_sets\<close>
  does not yield \<^verbatim>\<open>a\<close>, neither on the engine before the call nor on the engine it
  leaves: the document \<^verbatim>\<open>index_sets\<close> writes has the id \<^verbatim>\<open>a\<close>, and
  \<^verbatim>\<open>get_record_sets\<close> keeps only the ids that start with \<^verbatim>\<open>oaiset-\<close>.
\<close>

theorem record_in_set_not_get_record_sets_counterexample:
  "record_in_set example_app [\<lparr>spec = ''a'', search_pattern = Some ''x''\<rparr>] ''x'' ''a'' []
     = Inr (True,
            [(''rdmrecords-records-record-v4.0.0-percolators'',
              \<lparr>properties = [(''title'', ''text''), (''query'', ''percolator'')],
               documents = [(''a'', Some ''x'')]\<rparr>)])
   \<and> ''a'' \<notin> set (fst (get_record_sets example_app
                           [\<lparr>spec = ''a'', search_pattern = Some ''x''\<rparr>] ''x'' None []))
   \<and> ''a'' \<notin> set (fst (get_record_sets example_app
                           [\<lparr>spec = ''a'', search_pattern = Some ''x''\<rparr>] ''x'' None
                           [(''rdmrecords-records-record-v4.0.0-percolators'',
                             \<lparr>properties = [(''title'', ''text''), (''query'', ''percolator'')],
                              documents = [(''a'', Some ''x'')]\<rparr>)]))"
  by code_simp

subsection \<open>What the calls do to the mappings\<close>

lemma es_exists_mapping_at: "es_exists n es = (mapping_at es n \<noteq> None)"
  by (simp add: es_exists_def mapping_at_def)

lemma dict_update_PERCOLATOR_MAPPING:
  "dict_update PERCOLATOR_MAPPING P = AList.update ''query'' ''percolator'' P"
  by (simp add: dict_update_def PERCOLATOR_MAPPING_def)

lemma dict_update_PERCOLATOR_MAPPING_idem:
  "dict_update PERCOLATOR_MAPPING (dict_update PERCOLATOR_MAPPING P)
     = dict_update PERCOLATOR_MAPPING P"
  by (simp add: dict_update_PERCOLATOR_MAPPING)

lemma mapping_at_es_delete:
  "es_delete n i ig es = Inr es' \<Longrightarrow> mapping_at es' k = mapping_at es k"
  by (auto simp: es_delete_def mapping_at_def update_conv' split: if_splits option.splits)

lemma mapping_at_es_put_mapping:
  "es_put_mapping n props es = Inr es' \<Longrightarrow>
     mapping_at es' k
       = (if k = n then map_option (dict_update props) (mapping_at es n) else mapping_at es k)"
  by (auto simp: es_put_mapping_def mapping_at_def update_conv' split: option.splits)

lemma mapping_at_es_create:
  "es_create n props es = Inr es' \<Longrightarrow>
     mapping_at es' k = (if k = n then Some props else mapping_at es k)
     \<and> mapping_at es n = None"
  by (auto simp: es_create_def es_exists_def mapping_at_def update_conv' split: if_splits)

lemma es_put_mapping_fixed:
  "es_put_mapping n props es = Inr es
     = (\<exists>P. mapping_at es n = Some P \<and> dict_update props P = P)"
proof
  assume a: "es_put_mapping n props es = Inr es"
  from mapping_at_es_put_mapping [OF a, of n] show
    "\<exists>P. mapping_at es n = Some P \<and> dict_update props P = P"
    using a by (cases "mapping_at es n") (auto simp: es_put_mapping_def mapping_at_def
        split: option.splits)
next
  assume "\<exists>P. mapping_at es n = Some P \<and> dict_update props P = P"
  then obtain ix where ix: "map_of es n = Some ix"
    and f: "dict_update props (properties ix) = properties ix"
    by (auto simp: mapping_at_def)
  then show "es_put_mapping n props es = Inr es"
    by (simp add: es_put_mapping_def update_triv)
qed

lemma create_percolator_mapping_fixed:
  "create_percolator_mapping A index dt mp es = Inr es
     = (if ES_VERSION A = 5 \<or> ES_VERSION A = 6 then
          (\<exists>P. mapping_at es index = Some P \<and> dict_update PERCOLATOR_MAPPING P = P)
        else if ES_VERSION A = 7 then
          ((mp = None \<or> mp = Some []) \<longrightarrow> map_of (mappings A) index \<noteq> None)
          \<and> mapping_at es (build_percolator_index_name A index) \<noteq> None
        else True)"
proof -
  have c: "es_create n props es \<noteq> Inr es" for n props
  proof
    assume a: "es_create n props es = Inr es"
    from mapping_at_es_create [OF a, of n] show False by auto
  qed
  show ?thesis
    by (auto simp: create_percolator_mapping_def Let_def es_put_mapping_fixed c
          es_exists_mapping_at split: sum.splits option.splits)
qed

lemma create_percolator_mapping_idem:
  assumes "create_percolator_mapping A index dt mp es = Inr es'"
  shows "create_percolator_mapping A index dt mp es' = Inr es'"
proof -
  consider "ES_VERSION A = 5 \<or> ES_VERSION A = 6" | "ES_VERSION A = 7"
    | "ES_VERSION A \<noteq> 5 \<and> ES_VERSION A \<noteq> 6 \<and> ES_VERSION A \<noteq> 7" by blast
  then show ?thesis
  proof cases
    case 1
    with assms have p: "es_put_mapping index PERCOLATOR_MAPPING es = Inr es'"
      by (auto simp: create_percolator_mapping_def)
    then obtain P where "mapping_at es index = Some P"
      by (auto simp: es_put_mapping_def mapping_at_def split: option.splits)
    with mapping_at_es_put_mapping [OF p, of index]
    have "mapping_at es' index = Some (dict_update PERCOLATOR_MAPPING P)" by simp
    with 1 show ?thesis
      by (simp add: create_percolator_mapping_fixed dict_update_PERCOLATOR_MAPPING_idem)
  next
    case 2
    show ?thesis
    proof (cases "es_exists (build_percolator_index_name A index) es")
      case True
      with 2 assms have "es' = es"
        by (auto simp: create_percolator_mapping_def Let_def split: sum.splits option.splits
            if_splits)
      with assms show ?thesis by simp
    next
      case False
      with 2 assms obtain props where
        c: "es_create (build_percolator_index_name A index) props es = Inr es'"
        and r: "(mp = None \<or> mp = Some []) \<longrightarrow> map_of (mappings A) index \<noteq> None"
        by (auto simp: create_percolator_mapping_def Let_def split: sum.splits option.splits
            if_splits)
      from mapping_at_es_create [OF c, of "build_percolator_index_name A index"] r 2
      show ?thesis
        by (simp add: create_percolator_mapping_fixed)
    qed
  next
    case 3
    then show ?thesis by (simp add: create_percolator_mapping_fixed)
  qed
qed


lemma create_percolator_mapping_keeps_index:
  assumes "create_percolator_mapping A index dt mp es = Inr es'"
    and "mapping_at es n \<noteq> None"
  shows "mapping_at es' n \<noteq> None"
proof -
  have p: "mapping_at e' n \<noteq> None" if "es_put_mapping m props es = Inr e'" for m props e'
    using mapping_at_es_put_mapping [OF that, of n] assms(2) by auto
  have c: "mapping_at e' n \<noteq> None" if "es_create m props es = Inr e'" for m props e'
    using mapping_at_es_create [OF that, of n] assms(2) by auto
  from assms(1) show ?thesis
    using p c assms(2)
    by (auto simp: create_percolator_mapping_def Let_def
          split: if_splits sum.splits option.splits)
qed

lemma create_percolator_mapping_keeps_fixed_mapping:
  assumes "create_percolator_mapping A index dt mp es = Inr es'"
    and "mapping_at es n = Some P" and "dict_update PERCOLATOR_MAPPING P = P"
  shows "mapping_at es' n = Some P"
proof -
  have p: "mapping_at e' n = Some P"
    if "es_put_mapping m PERCOLATOR_MAPPING es = Inr e'" for m e'
    using mapping_at_es_put_mapping [OF that, of n] assms(2,3) by auto
  have c: "mapping_at e' n = Some P" if "es_create m props es = Inr e'" for m props e'
    using mapping_at_es_create [OF that, of n] assms(2) by auto
  from assms(1) show ?thesis
    using p c assms(2)
    by (auto simp: create_percolator_mapping_def Let_def
          split: if_splits sum.splits option.splits)
qed

lemma create_percolator_mapping_stays_fixed:
  assumes "create_percolator_mapping A k dt mp es = Inr es"
    and "create_percolator_mapping A k' dt' mp' es = Inr es1"
  shows "create_percolator_mapping A k dt mp es1 = Inr es1"
  using assms(1) create_percolator_mapping_keeps_index [OF assms(2)]
    create_percolator_mapping_keeps_fixed_mapping [OF assms(2)]
  by (auto simp: create_percolator_mapping_fixed split: if_splits)

lemma es_delete_stays_fixed:
  assumes "create_percolator_mapping A k dt mp es = Inr es"
    and "es_delete n i ig es = Inr es1"
  shows "create_percolator_mapping A k dt mp es1 = Inr es1"
  using assms(1) mapping_at_es_delete [OF assms(2)]
  by (simp add: create_percolator_mapping_fixed)

lemma delete_percolator_loop_stays_fixed:
  "create_percolator_mapping A k dt mp es = Inr es \<Longrightarrow>
   delete_percolator_loop A s ks es = Inr es' \<Longrightarrow>
   create_percolator_mapping A k dt mp es' = Inr es'"
proof (induction ks arbitrary: es)
  case Nil
  then show ?case by simp
next
  case (Cons index ks)
  from Cons.prems(2) obtain dt' es1 es2 where
    c: "create_percolator_mapping A index dt' None es = Inr es1" and
    d: "es_delete (build_percolator_index_name A index) (oaiset_id s) [404] es1 = Inr es2" and
    r: "delete_percolator_loop A s ks es2 = Inr es'"
    by (auto split: sum.splits)
  from create_percolator_mapping_stays_fixed [OF Cons.prems(1) c]
  have "create_percolator_mapping A k dt mp es1 = Inr es1" .
  from es_delete_stays_fixed [OF this d]
  have "create_percolator_mapping A k dt mp es2 = Inr es2" .
  from Cons.IH [OF this r] show ?case .
qed

lemma delete_percolator_loop_fixes:
  "delete_percolator_loop A s ks es = Inr es' \<Longrightarrow> k \<in> set ks \<Longrightarrow>
   \<exists>dt. get_percolator_doc_type A k = Inr dt
        \<and> create_percolator_mapping A k dt None es' = Inr es'"
proof (induction ks arbitrary: es)
  case Nil
  then show ?case by simp
next
  case (Cons index ks)
  from Cons.prems(1) obtain dt' es1 es2 where
    g: "get_percolator_doc_type A index = Inr dt'" and
    c: "create_percolator_mapping A index dt' None es = Inr es1" and
    d: "es_delete (build_percolator_index_name A index) (oaiset_id s) [404] es1 = Inr es2" and
    r: "delete_percolator_loop A s ks es2 = Inr es'"
    by (auto split: sum.splits)
  show ?case
  proof (cases "k = index")
    case True
    from create_percolator_mapping_idem [OF c]
    have "create_percolator_mapping A index dt' None es1 = Inr es1" .
    from es_delete_stays_fixed [OF this d]
    have "create_percolator_mapping A index dt' None es2 = Inr es2" .
    from delete_percolator_loop_stays_fixed [OF this r] g True show ?thesis by blast
  next
    case False
    with Cons.prems(2) have "k \<in> set ks" by simp
    from Cons.IH [OF r this] show ?thesis .
  qed
qed

lemma es_delete_absent: "doc_at es n i = None \<Longrightarrow> es_delete n i [404] es = Inr es"
  by (auto simp: es_delete_def doc_at_def split: option.splits)

lemma delete_percolator_loop_at_fixed:
  "(\<And>k. k \<in> set ks \<Longrightarrow>
        \<exists>dt. get_percolator_doc_type A k = Inr dt
             \<and> create_percolator_mapping A k dt None e = Inr e) \<Longrightarrow>
   (\<And>k. k \<in> set ks \<Longrightarrow> doc_at e (build_percolator_index_name A k) (oaiset_id s) = None) \<Longrightarrow>
   delete_percolator_loop A s ks e = Inr e"
proof (induction ks)
  case Nil
  then show ?case by simp
next
  case (Cons index ks)
  from Cons.prems(1) [of index] obtain dt where
    g: "get_percolator_doc_type A index = Inr dt" and
    c: "create_percolator_mapping A index dt None e = Inr e" by auto
  from Cons.prems(2) [of index]
  have d: "es_delete (build_percolator_index_name A index) (oaiset_id s) [404] e = Inr e"
    by (simp add: es_delete_absent)
  have "delete_percolator_loop A s ks e = Inr e"
    using Cons.IH Cons.prems by simp
  with g c d show ?case by simp
qed

lemma delete_percolator_loop_idem:
  assumes "delete_percolator_loop A s ks es = Inr es'"
  shows "delete_percolator_loop A s ks es' = Inr es'"
proof (rule delete_percolator_loop_at_fixed)
  fix k assume "k \<in> set ks"
  from delete_percolator_loop_fixes [OF assms this]
  show "\<exists>dt. get_percolator_doc_type A k = Inr dt
             \<and> create_percolator_mapping A k dt None es' = Inr es'" .
next
  fix k assume "k \<in> set ks"
  with doc_at_delete_percolator_loop [OF assms,
      of "build_percolator_index_name A k" "oaiset_id s"]
  show "doc_at es' (build_percolator_index_name A k) (oaiset_id s) = None" by simp
qed


lemma get_percolator_doc_type_of_key:
  "index \<in> fst ` set (mappings A) \<Longrightarrow> \<exists>dt. get_percolator_doc_type A index = Inr dt"
  by (auto simp: get_percolator_doc_type_def map_of_eq_None_iff split: option.splits)

lemma es_delete_ignore_404: "\<exists>es'. es_delete n i [404] es = Inr es'"
  by (simp add: es_delete_def split: option.splits)

lemma create_percolator_mapping_succeeds:
  assumes "index \<in> fst ` set (mappings A)"
    and "ES_VERSION A = 5 \<or> ES_VERSION A = 6 \<Longrightarrow> es_exists index es"
    and "ES_VERSION A = 7 \<Longrightarrow> \<forall>p \<in> snd ` set (mappings A). \<exists>m. load_mapping A p = Inr m"
  shows "\<exists>es'. create_percolator_mapping A index dt None es = Inr es'"
proof -
  consider "ES_VERSION A = 5 \<or> ES_VERSION A = 6" | "ES_VERSION A = 7"
    | "ES_VERSION A \<noteq> 5 \<and> ES_VERSION A \<noteq> 6 \<and> ES_VERSION A \<noteq> 7" by blast
  then show ?thesis
  proof cases
    case 1
    with assms(2) show ?thesis
      by (auto simp: create_percolator_mapping_def es_put_mapping_def es_exists_def)
  next
    case 2
    from assms(1) obtain p where p: "map_of (mappings A) index = Some p"
      by (cases "map_of (mappings A) index") (auto simp: map_of_eq_None_iff)
    then have "p \<in> snd ` set (mappings A)"
      by (force dest: map_of_SomeD)
    with assms(3) 2 obtain m where "load_mapping A p = Inr m" by blast
    with 2 p show ?thesis
      by (simp add: create_percolator_mapping_def Let_def es_create_def)
  next
    case 3
    then show ?thesis by (simp add: create_percolator_mapping_def)
  qed
qed

lemma delete_percolator_loop_succeeds:
  assumes "ES_VERSION A = 7 \<Longrightarrow> \<forall>p \<in> snd ` set (mappings A). \<exists>m. load_mapping A p = Inr m"
  shows "set ks \<subseteq> fst ` set (mappings A) \<Longrightarrow>
    (ES_VERSION A = 5 \<or> ES_VERSION A = 6 \<Longrightarrow> \<forall>i \<in> fst ` set (mappings A). es_exists i es) \<Longrightarrow>
    \<exists>es'. delete_percolator_loop A s ks es = Inr es'"
proof (induction ks arbitrary: es)
  case Nil
  then show ?case by simp
next
  case (Cons index ks)
  from Cons.prems(1) have k: "index \<in> fst ` set (mappings A)" by simp
  from get_percolator_doc_type_of_key [OF k] obtain dt where
    g: "get_percolator_doc_type A index = Inr dt" by blast
  from create_percolator_mapping_succeeds [OF k _ assms, of es dt] Cons.prems(2) k
  obtain es1 where c: "create_percolator_mapping A index dt None es = Inr es1" by blast
  from es_delete_ignore_404 obtain es2 where
    d: "es_delete (build_percolator_index_name A index) (oaiset_id s) [404] es1 = Inr es2"
    by blast
  have "\<forall>i \<in> fst ` set (mappings A). es_exists i es2"
    if v: "ES_VERSION A = 5 \<or> ES_VERSION A = 6"
  proof
    fix i assume "i \<in> fst ` set (mappings A)"
    with Cons.prems(2) [OF v] have "es_exists i es" by blast
    then have "mapping_at es i \<noteq> None"
      by (simp add: es_exists_mapping_at)
    from create_percolator_mapping_keeps_index [OF c this]
    show "es_exists i es2"
      by (simp add: es_exists_mapping_at mapping_at_es_delete [OF d])
  qed
  with Cons.IH [of es2] Cons.prems(1) obtain es' where
    "delete_percolator_loop A s ks es2 = Inr es'" by auto
  with g c d show ?case by simp
qed

subsection \<open>Deleting a percolator\<close>

text \<open>
  Claim C6, as the code has it. \<^verbatim>\<open>_delete_percolator\<close> with the empty set name does
  nothing. A call that returns can be repeated: the second call, which finds no document
  left to delete, returns too and leaves the engine as the first left it. And the call
  returns, whether or not the percolator document exists, whenever the step before the
  delete, \<^verbatim>\<open>_create_percolator_mapping\<close>, can run: with engine version 5 or 6 the
  mapped content indices exist, with version 7 the mapping files can be read. The 404 of
  the delete is ignored; an error of the step before it is not.
\<close>

theorem delete_percolator_idempotent:
  "delete_percolator A [] pattern es = Inr es
   \<and> (delete_percolator A s pattern es = Inr es'
        \<longrightarrow> delete_percolator A s pattern es' = Inr es')
   \<and> ((ES_VERSION A = 5 \<or> ES_VERSION A = 6
          \<longrightarrow> (\<forall>i \<in> fst ` set (mappings A). es_exists i es))
        \<and> (ES_VERSION A = 7
          \<longrightarrow> (\<forall>p \<in> snd ` set (mappings A). \<exists>m. load_mapping A p = Inr m))
        \<longrightarrow> (\<exists>es1. delete_percolator A s pattern es = Inr es1
                  \<and> delete_percolator A s pattern es1 = Inr es1))"
proof (intro conjI impI)
  show "delete_percolator A [] pattern es = Inr es"
    by (simp add: delete_percolator_def)
next
  assume "delete_percolator A s pattern es = Inr es'"
  then show "delete_percolator A s pattern es' = Inr es'"
    by (auto simp: delete_percolator_def delete_percolator_loop_idem split: if_splits)
next
  assume h: "(ES_VERSION A = 5 \<or> ES_VERSION A = 6
          \<longrightarrow> (\<forall>i \<in> fst ` set (mappings A). es_exists i es))
        \<and> (ES_VERSION A = 7
          \<longrightarrow> (\<forall>p \<in> snd ` set (mappings A). \<exists>m. load_mapping A p = Inr m))"
  have "\<exists>es1. delete_percolator_loop A s (map fst (mappings A)) es = Inr es1"
    by (rule delete_percolator_loop_succeeds) (use h in auto)
  then obtain es1 where l: "delete_percolator_loop A s (map fst (mappings A)) es = Inr es1"
    by blast
  show "\<exists>es1. delete_percolator A s pattern es = Inr es1
                  \<and> delete_percolator A s pattern es1 = Inr es1"
  proof (cases "s = []")
    case True
    then show ?thesis by (simp add: delete_percolator_def)
  next
    case False
    with l delete_percolator_loop_idem [OF l] show ?thesis
      by (simp add: delete_percolator_def)
  qed
qed



theorem delete_percolator_idempotent_witness:
  "delete_percolator example_app [] None
       [(''rdmrecords-records-record-v4.0.0-percolators'',
         \<lparr>properties = [(''title'', ''text''), (''query'', ''percolator'')],
          documents = [(''oaiset-a'', Some ''x'')]\<rparr>)]
     = Inr [(''rdmrecords-records-record-v4.0.0-percolators'',
             \<lparr>properties = [(''title'', ''text''), (''query'', ''percolator'')],
              documents = [(''oaiset-a'', Some ''x'')]\<rparr>)]
   \<and> delete_percolator example_app ''a'' None
       [(''rdmrecords-records-record-v4.0.0-percolators'',
         \<lparr>properties = [(''title'', ''text''), (''query'', ''percolator'')],
          documents = [(''oaiset-a'', Some ''x'')]\<rparr>)]
     = Inr [(''rdmrecords-records-record-v4.0.0-percolators'',
             \<lparr>properties = [(''title'', ''text''), (''query'', ''percolator'')],
              documents = []\<rparr>)]
   \<and> delete_percolator example_app ''a'' None
       [(''rdmrecords-records-record-v4.0.0-percolators'',
         \<lparr>properties = [(''title'', ''text''), (''query'', ''percolator'')],
          documents = []\<rparr>)]
     = Inr [(''rdmrecords-records-record-v4.0.0-percolators'',
             \<lparr>properties = [(''title'', ''text''), (''query'', ''percolator'')],
              documents = [] :: (string \<times> string option) list\<rparr>)]
   \<and> (\<exists>es1. delete_percolator example_app ''a'' None ([] :: string option engine) = Inr es1
            \<and> delete_percolator example_app ''a'' None es1 = Inr es1)"
proof -
  let ?E1 = "[(''rdmrecords-records-record-v4.0.0-percolators'',
         \<lparr>properties = [(''title'', ''text''), (''query'', ''percolator'')],
          documents = [(''oaiset-a'', Some ''x'')]\<rparr>)]"
  let ?E2 = "[(''rdmrecords-records-record-v4.0.0-percolators'',
         \<lparr>properties = [(''title'', ''text''), (''query'', ''percolator'')],
          documents = [] :: (string \<times> string option) list\<rparr>)]"
  have d: "delete_percolator example_app ''a'' None ?E1 = Inr ?E2"
    by code_simp
  have v: "(ES_VERSION example_app = 5 \<or> ES_VERSION example_app = 6
          \<longrightarrow> (\<forall>i \<in> fst ` set (mappings example_app).
                 es_exists i ([] :: string option engine)))
        \<and> (ES_VERSION example_app = 7
          \<longrightarrow> (\<forall>p \<in> snd ` set (mappings example_app).
                 \<exists>m. load_mapping example_app p = Inr m))"
    by (simp add: example_app_def)
  from delete_percolator_idempotent [of example_app None ?E1 "''a''" ?E2] d
  have a: "delete_percolator example_app [] None ?E1 = Inr ?E1"
    and b: "delete_percolator example_app ''a'' None ?E2 = Inr ?E2"
    by simp_all
  from delete_percolator_idempotent [of example_app None "[]" "''a''" "[]"] v
  have c: "\<exists>es1. delete_percolator example_app ''a'' None ([] :: string option engine) = Inr es1
            \<and> delete_percolator example_app ''a'' None es1 = Inr es1"
    by blast
  from a b c d show ?thesis by simp
qed

text \<open>
  With engine version 6 and no content index, the percolator document of the set
  \<^verbatim>\<open>a\<close> does not exist and \<^verbatim>\<open>_delete_percolator\<close> raises: \<^verbatim>\<open>put_mapping\<close> on the
  missing index is not found, and that call has no \<^verbatim>\<open>ignore\<close>.
\<close>

theorem delete_percolator_es6_missing_index_counterexample:
  "doc_at ([] :: string option engine)
      (build_percolator_index_name example_app_es6 rdm_index) (''oaiset-'' @ ''a'') = None
   \<and> delete_percolator example_app_es6 ''a'' None ([] :: string option engine)
     = Inl NotFoundError"
  by code_simp

subsection \<open>Creating the percolator mapping\<close>

lemma es_put_mapping_keys:
  "es_put_mapping n props es = Inr es' \<Longrightarrow> map fst es' = map fst es"
  by (force simp: es_put_mapping_def update_keys split: option.splits
        dest!: map_of_SomeD)

text \<open>
  Claim C7, as the code has it. On every engine version a call of
  \<^verbatim>\<open>_create_percolator_mapping\<close> that returns can be repeated and the second call
  changes nothing; no call changes a stored query. With a version other than 5 and 6, a
  call made when the derived percolator index exists creates nothing and changes
  nothing. With version 5 or 6 the call puts the mapping without a test: it creates no
  index, and sets the field \<^verbatim>\<open>query\<close> of the content index's mapping to
  \<^verbatim>\<open>percolator\<close>.
\<close>

theorem create_percolator_mapping_idempotent:
  "(create_percolator_mapping A index dt mp es = Inr es1
      \<longrightarrow> create_percolator_mapping A index dt mp es1 = Inr es1
        \<and> doc_at es1 n k = doc_at es n k)
   \<and> (ES_VERSION A \<noteq> 5 \<and> ES_VERSION A \<noteq> 6
        \<and> es_exists (build_percolator_index_name A index) es
        \<and> create_percolator_mapping A index dt mp es = Inr es2
      \<longrightarrow> es2 = es)
   \<and> ((ES_VERSION A = 5 \<or> ES_VERSION A = 6)
        \<and> create_percolator_mapping A index dt mp es = Inr es3
      \<longrightarrow> map fst es3 = map fst es
        \<and> mapping_at es index \<noteq> None
        \<and> mapping_at es3 index
            = map_option (AList.update ''query'' ''percolator'') (mapping_at es index))"
proof (intro conjI impI)
  assume a: "create_percolator_mapping A index dt mp es = Inr es1"
  from create_percolator_mapping_idem [OF a]
  show "create_percolator_mapping A index dt mp es1 = Inr es1" .
  from doc_at_create_percolator_mapping [OF a]
  show "doc_at es1 n k = doc_at es n k" .
next
  assume "ES_VERSION A \<noteq> 5 \<and> ES_VERSION A \<noteq> 6
        \<and> es_exists (build_percolator_index_name A index) es
        \<and> create_percolator_mapping A index dt mp es = Inr es2"
  then show "es2 = es"
    by (auto simp: create_percolator_mapping_def Let_def
          split: if_splits sum.splits option.splits)
next
  assume a: "(ES_VERSION A = 5 \<or> ES_VERSION A = 6)
        \<and> create_percolator_mapping A index dt mp es = Inr es3"
  then have p: "es_put_mapping index PERCOLATOR_MAPPING es = Inr es3"
    by (auto simp: create_percolator_mapping_def)
  from es_put_mapping_keys [OF p] show "map fst es3 = map fst es" .
  from p show "mapping_at es index \<noteq> None"
    by (auto simp: es_put_mapping_def mapping_at_def split: option.splits)
  from mapping_at_es_put_mapping [OF p, of index]
  show "mapping_at es3 index
            = map_option (AList.update ''query'' ''percolator'') (mapping_at es index)"
    by (simp add: dict_update_PERCOLATOR_MAPPING [abs_def])
qed

theorem create_percolator_mapping_idempotent_witness:
  "create_percolator_mapping example_app rdm_index (Some ''_doc'') None
       ([] :: string option engine)
     = Inr [(''rdmrecords-records-record-v4.0.0-percolators'',
             \<lparr>properties = [(''title'', ''text''), (''query'', ''percolator'')],
              documents = []\<rparr>)]
   \<and> create_percolator_mapping example_app rdm_index (Some ''_doc'') None
       [(''rdmrecords-records-record-v4.0.0-percolators'',
         \<lparr>properties = [(''title'', ''text''), (''query'', ''percolator'')],
          documents = [] :: (string \<times> string option) list\<rparr>)]
     = Inr [(''rdmrecords-records-record-v4.0.0-percolators'',
             \<lparr>properties = [(''title'', ''text''), (''query'', ''percolator'')],
              documents = []\<rparr>)]
   \<and> create_percolator_mapping example_app rdm_index (Some ''_doc'') None
       [(''rdmrecords-records-record-v4.0.0-percolators'',
         \<lparr>properties = [], documents = [(''oaiset-a'', Some ''x'')]\<rparr>)]
     = Inr [(''rdmrecords-records-record-v4.0.0-percolators'',
         \<lparr>properties = [], documents = [(''oaiset-a'', Some ''x'')]\<rparr>)]
   \<and> mapping_at
       [(''rdmrecords-records-record-v4.0.0'',
         \<lparr>properties = [(''title'', ''text'')],
          documents = [] :: (string \<times> string option) list\<rparr>)] rdm_index
     = Some [(''title'', ''text'')]
   \<and> mapping_at
       [(''rdmrecords-records-record-v4.0.0'',
         \<lparr>properties = [(''title'', ''text''), (''query'', ''percolator'')],
          documents = [] :: (string \<times> string option) list\<rparr>)] rdm_index
     = Some [(''title'', ''text''), (''query'', ''percolator'')]"
proof -
  let ?P = "[(''title'', ''text''), (''query'', ''percolator'')]"
  let ?E1 = "[(''rdmrecords-records-record-v4.0.0-percolators'',
         \<lparr>properties = ?P, documents = [] :: (string \<times> string option) list\<rparr>)]"
  let ?E2 = "[(''rdmrecords-records-record-v4.0.0-percolators'',
         \<lparr>properties = [], documents = [(''oaiset-a'', Some ''x'')]\<rparr>)]"
  let ?E0 = "[(''rdmrecords-records-record-v4.0.0'',
         \<lparr>properties = [(''title'', ''text'')],
          documents = [] :: (string \<times> string option) list\<rparr>)]"
  let ?E3 = "[(''rdmrecords-records-record-v4.0.0'',
         \<lparr>properties = ?P, documents = [] :: (string \<times> string option) list\<rparr>)]"
  have c1: "create_percolator_mapping example_app rdm_index (Some ''_doc'') None
       ([] :: string option engine) = Inr ?E1"
    by code_simp
  have x2: "es_exists (build_percolator_index_name example_app rdm_index) ?E2"
    by code_simp
  have c2: "create_percolator_mapping example_app rdm_index (Some ''_doc'') None ?E2 = Inr ?E2"
    by code_simp
  have c3: "create_percolator_mapping example_app_es6 rdm_index (Some ''_doc'') None ?E0
              = Inr ?E3"
    by code_simp
  have v7: "ES_VERSION example_app \<noteq> 5 \<and> ES_VERSION example_app \<noteq> 6"
    by (simp add: example_app_def)
  have v6: "ES_VERSION example_app_es6 = 5 \<or> ES_VERSION example_app_es6 = 6"
    by (simp add: example_app_es6_def)
  have m0: "mapping_at ?E0 rdm_index = Some [(''title'', ''text'')]"
    by (simp add: mapping_at_def rdm_index_def)
  from create_percolator_mapping_idempotent [of example_app rdm_index "Some ''_doc''" None
      "[]" ?E1 _ _ ?E2] c1
  have a: "create_percolator_mapping example_app rdm_index (Some ''_doc'') None ?E1 = Inr ?E1"
    by simp
  from create_percolator_mapping_idempotent [of example_app rdm_index "Some ''_doc''" None
      ?E2 ?E2 _ _ ?E2] c2 x2 v7
  have b: "?E2 = ?E2" by simp
  from create_percolator_mapping_idempotent [of example_app_es6 rdm_index "Some ''_doc''"
      None ?E0 ?E3 _ _ ?E3 ?E3] c3 v6 m0
  have c: "mapping_at ?E3 rdm_index = Some ?P"
    by simp
  from c1 a c2 m0 c show ?thesis by simp
qed

text \<open>
  With engine version 6 and no index prefix the derived percolator index is the content
  index itself. It exists, its mapping has no field \<^verbatim>\<open>query\<close>, and the call changes
  the mapping.
\<close>

theorem create_percolator_mapping_es6_counterexample:
  "es_exists (build_percolator_index_name example_app_es6 rdm_index)
      [(''rdmrecords-records-record-v4.0.0'',
        \<lparr>properties = [(''title'', ''text'')],
         documents = [] :: (string \<times> string option) list\<rparr>)]
   \<and> create_percolator_mapping example_app_es6 rdm_index (Some ''_doc'') None
      [(''rdmrecords-records-record-v4.0.0'',
        \<lparr>properties = [(''title'', ''text'')],
         documents = [] :: (string \<times> string option) list\<rparr>)]
     = Inr [(''rdmrecords-records-record-v4.0.0'',
        \<lparr>properties = [(''title'', ''text''), (''query'', ''percolator'')],
         documents = []\<rparr>)]
   \<and> [(''rdmrecords-records-record-v4.0.0'',
        \<lparr>properties = [(''title'', ''text''), (''query'', ''percolator'')],
         documents = [] :: (string \<times> string option) list\<rparr>)]
     \<noteq> [(''rdmrecords-records-record-v4.0.0'',
        \<lparr>properties = [(''title'', ''text'')],
         documents = []\<rparr>)]"
proof -
  have "es_exists (build_percolator_index_name example_app_es6 rdm_index)
      [(''rdmrecords-records-record-v4.0.0'',
        \<lparr>properties = [(''title'', ''text'')],
         documents = [] :: (string \<times> string option) list\<rparr>)]"
    by code_simp
  moreover have "create_percolator_mapping example_app_es6 rdm_index (Some ''_doc'') None
      [(''rdmrecords-records-record-v4.0.0'',
        \<lparr>properties = [(''title'', ''text'')],
         documents = [] :: (string \<times> string option) list\<rparr>)]
     = Inr [(''rdmrecords-records-record-v4.0.0'',
        \<lparr>properties = [(''title'', ''text''), (''query'', ''percolator'')],
         documents = []\<rparr>)]"
    by code_simp
  ultimately show ?thesis by simp
qed

subsection \<open>The ids of percolator documents\<close>

lemma get_record_sets_percolated_Inr:
  assumes "get_record_sets_percolated A record es = Inr (names, es')"
  shows "\<exists>dt results.
           percolate_query_single A (fst (record_to_index A record))
             (snd (record_to_index A record)) dt (dumps A record) es' = Inr results
           \<and> names = strip_hits results"
  using assms
  by (auto simp: get_record_sets_percolated_def Let_def
        split: prod.splits sum.splits)

text \<open>
  Claim C1, as the code has it: the id of a set's percolator document is
  \<^verbatim>\<open>"oaiset-" + spec\<close>. \<^verbatim>\<open>_new_percolator\<close>, for a set with a name and a pattern,
  leaves the parsed pattern under that id in the percolator index of every mapped index,
  and touches no other id. \<^verbatim>\<open>_delete_percolator\<close> leaves nothing under that id, and
  touches no other id. \<^verbatim>\<open>get_record_sets\<close> yields, from the percolator's hits, exactly
  the names \<open>n\<close> for which \<^verbatim>\<open>"oaiset-" + n\<close> is a hit: an id without the prefix
  yields nothing.
\<close>

theorem percolator_id_convention:
  "(new_percolator A s pattern es = Inr es1 \<and> s \<noteq> [] \<and> pattern \<noteq> None
        \<and> pattern \<noteq> Some [] \<and> index \<in> fst ` set (mappings A)
      \<longrightarrow> doc_at es1 (build_percolator_index_name A index) (''oaiset-'' @ s)
            = Some (query_string_parser A pattern))
   \<and> (new_percolator A s pattern es = Inr es1 \<and> k \<noteq> ''oaiset-'' @ s
      \<longrightarrow> doc_at es1 n k = doc_at es n k)
   \<and> (delete_percolator A s pattern es = Inr es2 \<and> s \<noteq> []
        \<and> index \<in> fst ` set (mappings A)
      \<longrightarrow> doc_at es2 (build_percolator_index_name A index) (''oaiset-'' @ s) = None)
   \<and> (delete_percolator A s pattern es = Inr es2 \<and> k \<noteq> ''oaiset-'' @ s
      \<longrightarrow> doc_at es2 n k = doc_at es n k)
   \<and> set (strip_hits results) = {name. ''oaiset-'' @ name \<in> set results}
   \<and> (get_record_sets_percolated A record es = Inr (names, es3)
      \<longrightarrow> (\<exists>dt hits.
             percolate_query_single A (fst (record_to_index A record))
               (snd (record_to_index A record)) dt (dumps A record) es3 = Inr hits
             \<and> set names = {name. ''oaiset-'' @ name \<in> set hits}))"
proof (intro conjI impI)
  assume a: "new_percolator A s pattern es = Inr es1 \<and> s \<noteq> [] \<and> pattern \<noteq> None
        \<and> pattern \<noteq> Some [] \<and> index \<in> fst ` set (mappings A)"
  then have c: "new_percolator A s pattern es = Inr es1" and g: "s \<noteq> []"
    "pattern \<noteq> None" "pattern \<noteq> Some []" and i: "index \<in> fst ` set (mappings A)"
    by blast+
  from c g have l: "new_percolator_loop A s (query_string_parser A pattern) (mappings A) es
                  = Inr es1"
    by (simp add: new_percolator_def)
  from doc_at_new_percolator_loop [OF l, of "build_percolator_index_name A index"
      "''oaiset-'' @ s"] i
  show "doc_at es1 (build_percolator_index_name A index) (''oaiset-'' @ s)
            = Some (query_string_parser A pattern)"
    by (simp add: oaiset_id_def)
next
  assume a: "new_percolator A s pattern es = Inr es1 \<and> k \<noteq> ''oaiset-'' @ s"
  then have c: "new_percolator A s pattern es = Inr es1" and k: "k \<noteq> ''oaiset-'' @ s"
    by blast+
  show "doc_at es1 n k = doc_at es n k"
  proof (cases "s \<noteq> [] \<and> pattern \<noteq> None \<and> pattern \<noteq> Some []")
    case True
    with c have l: "new_percolator_loop A s (query_string_parser A pattern) (mappings A) es
                  = Inr es1"
      by (simp add: new_percolator_def)
    from doc_at_new_percolator_loop [OF l, of n k] k show ?thesis
      by (simp add: oaiset_id_def)
  next
    case False
    with c have "es1 = es" by (simp add: new_percolator_def split: if_splits)
    then show ?thesis by simp
  qed
next
  assume a: "delete_percolator A s pattern es = Inr es2 \<and> s \<noteq> []
        \<and> index \<in> fst ` set (mappings A)"
  then have c: "delete_percolator A s pattern es = Inr es2" and g: "s \<noteq> []"
    and i: "index \<in> fst ` set (mappings A)"
    by blast+
  from c g have l: "delete_percolator_loop A s (map fst (mappings A)) es = Inr es2"
    by (simp add: delete_percolator_def)
  from doc_at_delete_percolator_loop [OF l, of "build_percolator_index_name A index"
      "''oaiset-'' @ s"] i
  show "doc_at es2 (build_percolator_index_name A index) (''oaiset-'' @ s) = None"
    by (simp add: oaiset_id_def)
next
  assume a: "delete_percolator A s pattern es = Inr es2 \<and> k \<noteq> ''oaiset-'' @ s"
  then have c: "delete_percolator A s pattern es = Inr es2" and k: "k \<noteq> ''oaiset-'' @ s"
    by blast+
  show "doc_at es2 n k = doc_at es n k"
  proof (cases "s \<noteq> []")
    case True
    with c have l: "delete_percolator_loop A s (map fst (mappings A)) es = Inr es2"
      by (simp add: delete_percolator_def)
    from doc_at_delete_percolator_loop [OF l, of n k] k show ?thesis
      by (simp add: oaiset_id_def)
  next
    case False
    with c have "es2 = es" by (simp add: delete_percolator_def)
    then show ?thesis by simp
  qed
next
  show "set (strip_hits results) = {name. ''oaiset-'' @ name \<in> set results}"
    by (rule strip_hits_set)
next
  assume "get_record_sets_percolated A record es = Inr (names, es3)"
  from get_record_sets_percolated_Inr [OF this]
  show "\<exists>dt hits.
             percolate_query_single A (fst (record_to_index A record))
               (snd (record_to_index A record)) dt (dumps A record) es3 = Inr hits
             \<and> set names = {name. ''oaiset-'' @ name \<in> set hits}"
    using strip_hits_set by blast
qed

theorem percolator_id_convention_witness:
  "new_percolator example_app ''a'' (Some ''x'') []
     = Inr [(''rdmrecords-records-record-v4.0.0-percolators'',
             \<lparr>properties = [(''title'', ''text''), (''query'', ''percolator'')],
              documents = [(''oaiset-a'', Some ''x'')]\<rparr>)]
   \<and> doc_at [(''rdmrecords-records-record-v4.0.0-percolators'',
             \<lparr>properties = [(''title'', ''text''), (''query'', ''percolator'')],
              documents = [(''oaiset-a'', Some ''x'')]\<rparr>)]
        (build_percolator_index_name example_app rdm_index) (''oaiset-'' @ ''a'')
     = Some (Some ''x'')
   \<and> delete_percolator example_app ''a'' (Some ''x'')
        [(''rdmrecords-records-record-v4.0.0-percolators'',
          \<lparr>properties = [(''title'', ''text''), (''query'', ''percolator'')],
           documents = [(''oaiset-a'', Some ''x'')]\<rparr>)]
     = Inr [(''rdmrecords-records-record-v4.0.0-percolators'',
             \<lparr>properties = [(''title'', ''text''), (''query'', ''percolator'')],
              documents = []\<rparr>)]
   \<and> doc_at [(''rdmrecords-records-record-v4.0.0-percolators'',
             \<lparr>properties = [(''title'', ''text''), (''query'', ''percolator'')],
              documents = [] :: (string \<times> string option) list\<rparr>)]
        (build_percolator_index_name example_app rdm_index) (''oaiset-'' @ ''a'') = None
   \<and> get_record_sets_percolated example_app ''x''
        [(''rdmrecords-records-record-v4.0.0-percolators'',
          \<lparr>properties = [(''title'', ''text''), (''query'', ''percolator'')],
           documents = [(''oaiset-a'', Some ''x'')]\<rparr>)]
     = Inr ([''a''],
            [(''rdmrecords-records-record-v4.0.0-percolators'',
              \<lparr>properties = [(''title'', ''text''), (''query'', ''percolator'')],
               documents = [(''oaiset-a'', Some ''x'')]\<rparr>)])"
proof -
  let ?P = "[(''title'', ''text''), (''query'', ''percolator'')]"
  let ?E1 = "[(''rdmrecords-records-record-v4.0.0-percolators'',
         \<lparr>properties = ?P, documents = [(''oaiset-a'', Some ''x'')]\<rparr>)]"
  let ?E2 = "[(''rdmrecords-records-record-v4.0.0-percolators'',
         \<lparr>properties = ?P, documents = [] :: (string \<times> string option) list\<rparr>)]"
  have n: "new_percolator example_app ''a'' (Some ''x'') [] = Inr ?E1"
    by code_simp
  have d: "delete_percolator example_app ''a'' (Some ''x'') ?E1 = Inr ?E2"
    by code_simp
  have g: "get_record_sets_percolated example_app ''x'' ?E1 = Inr ([''a''], ?E1)"
    by code_simp
  have i: "rdm_index \<in> fst ` set (mappings example_app)"
    by (simp add: example_app_def)
  from percolator_id_convention [where A = example_app and s = "''a''"
      and pattern = "Some ''x''" and es = "[]" and ?es1.0 = ?E1 and index = rdm_index] n i
  have a: "doc_at ?E1 (build_percolator_index_name example_app rdm_index) (''oaiset-'' @ ''a'')
             = Some (Some ''x'')"
    by (simp add: example_app_def)
  from percolator_id_convention [where A = example_app and s = "''a''"
      and pattern = "Some ''x''" and es = ?E1 and ?es2.0 = ?E2 and index = rdm_index] d i
  have b: "doc_at ?E2 (build_percolator_index_name example_app rdm_index) (''oaiset-'' @ ''a'')
             = None"
    by simp
  from n a d b g show ?thesis by simp
qed

text \<open>
  The prefix is not \<^verbatim>\<open>set-\<close>: after \<^verbatim>\<open>_new_percolator\<close> for the set \<^verbatim>\<open>a\<close> nothing
  is stored under \<^verbatim>\<open>set-a\<close>, and a hit \<^verbatim>\<open>set-a\<close> yields no name.
\<close>

theorem percolator_id_set_prefix_counterexample:
  "new_percolator example_app ''a'' (Some ''x'') []
     = Inr [(''rdmrecords-records-record-v4.0.0-percolators'',
             \<lparr>properties = [(''title'', ''text''), (''query'', ''percolator'')],
              documents = [(''oaiset-a'', Some ''x'')]\<rparr>)]
   \<and> doc_at [(''rdmrecords-records-record-v4.0.0-percolators'',
             \<lparr>properties = [(''title'', ''text''), (''query'', ''percolator'')],
              documents = [(''oaiset-a'', Some ''x'')]\<rparr>)]
        (build_percolator_index_name example_app rdm_index) (''set-'' @ ''a'') = None
   \<and> strip_hits [''set-'' @ ''a''] = []
   \<and> strip_hits [''oaiset-'' @ ''a''] = [''a'']"
  by code_simp

end
